theory Spec2Isabelle
  imports Complex_Main "HOL-Library.Log_Nat"
begin

section \<open>Flood risk dashboard: the prediction and presentation pipeline\<close>

text \<open>
  The theory embeds the decision logic of \<^verbatim>\<open>final6_app.py\<close>: the module constants, the map
  renderer \<^verbatim>\<open>create_interactive_map\<close>, the currency helpers \<^verbatim>\<open>convert_usd_to_inr\<close> and
  \<^verbatim>\<open>format_rupees\<close>, the model loader \<^verbatim>\<open>load_models\<close> and the control flow of \<^verbatim>\<open>main\<close>.

  A finite Python \<^verbatim>\<open>float\<close> is modelled by the real number it denotes. Comparisons of
  floats are then comparisons of reals. The arithmetic operators \<^verbatim>\<open>*\<close> and \<^verbatim>\<open>/\<close> round
  their exact result to the nearest binary64 number (ties to even), which is written out
  below as the function \<open>fl\<close>. Infinities, NaN, the negative zero, overflow and
  subnormal results are outside the model.
\<close>

subsection \<open>Python errors\<close>

text \<open>
  An exception of class \<^verbatim>\<open>Exception\<close>, as the handlers \<^verbatim>\<open>except Exception as e\<close> catch it.
  \<open>KeyError\<close> carries the \<^verbatim>\<open>repr\<close> of the missing key, \<open>ValueError\<close> its message,
  \<open>OtherException\<close> the text of any other exception (a failing \<^verbatim>\<open>joblib.load\<close> or model
  call).
\<close>

datatype py_error = KeyError string | IndexError | ValueError string | OtherException string

text \<open>\<^verbatim>\<open>str(e)\<close>, as the f-strings of the error messages interpolate it.\<close>

fun str_of_error :: "py_error \<Rightarrow> string" where
  "str_of_error (KeyError k) = k"
| "str_of_error IndexError = ''list index out of range''"
| "str_of_error (ValueError msg) = msg"
| "str_of_error (OtherException msg) = msg"

subsection \<open>Module constants\<close>

definition NUM_FEATURES :: "string list" where
  "NUM_FEATURES = [''rainfall_mm'', ''rain_7d'', ''rain_30d'',
                   ''elevation'', ''dist_to_river'',
                   ''population_density'', ''impervious_frac'', ''land_cover_index'']"

definition RISK_LABELS :: "int \<rightharpoonup> string" where
  "RISK_LABELS = [0 \<mapsto> ''Low'', 1 \<mapsto> ''Medium'', 2 \<mapsto> ''High'']"

definition RISK_COLORS :: "string \<rightharpoonup> string" where
  "RISK_COLORS = [''Low'' \<mapsto> ''#28a745'', ''Medium'' \<mapsto> ''#ffc107'', ''High'' \<mapsto> ''#dc3545'']"

definition USD_TO_INR :: real where
  "USD_TO_INR = 83"

text \<open>
  \<^verbatim>\<open>repr\<close> of a string. The quote is the apostrophe, or the double quote when the string
  holds an apostrophe and no double quote; the quote and the backslash are escaped by a
  backslash, tab, newline and carriage return are written \<^verbatim>\<open>\t\<close>, \<^verbatim>\<open>\n\<close>, \<^verbatim>\<open>\r\<close>, and any
  other control character as \<^verbatim>\<open>\x\<close> and two hexadecimal digits. The bytes above 0x7F
  encode characters outside ASCII, which are taken to be printable and are kept.
\<close>

definition repr_quote :: "string \<Rightarrow> char" where
  "repr_quote s = (if CHR 0x27 \<in> set s \<and> CHR 0x22 \<notin> set s then CHR 0x22 else CHR 0x27)"

definition hex_digit :: "nat \<Rightarrow> char" where
  "hex_digit n = ''0123456789abcdef'' ! n"

definition repr_char :: "char \<Rightarrow> char \<Rightarrow> string" where
  "repr_char q c =
     (let n = (of_char c :: nat) in
      if c = q \<or> c = CHR 0x5C then [CHR 0x5C, c]
      else if n = 9 then [CHR 0x5C, CHR ''t'']
      else if n = 10 then [CHR 0x5C, CHR ''n'']
      else if n = 13 then [CHR 0x5C, CHR ''r'']
      else if n < 32 \<or> n = 127
        then [CHR 0x5C, CHR ''x'', hex_digit (n div 16), hex_digit (n mod 16)]
      else [c])"

definition repr_str :: "string \<Rightarrow> string" where
  "repr_str k = (let q = repr_quote k in [q] @ concat (map (repr_char q) k) @ [q])"

text \<open>A subscript \<^verbatim>\<open>d[k]\<close> on a dictionary raises \<^verbatim>\<open>KeyError\<close> when the key is absent.\<close>

definition subscript :: "(string \<rightharpoonup> 'v) \<Rightarrow> string \<Rightarrow> py_error + 'v" where
  "subscript d k = (case d k of None \<Rightarrow> Inl (KeyError (repr_str k)) | Some v \<Rightarrow> Inr v)"

subsection \<open>Binary64 rounding\<close>

text \<open>Rounding a real to the nearest integer, a tie going to the even neighbour.\<close>

definition rhe :: "real \<Rightarrow> int" where
  "rhe x = (let f = \<lfloor>x\<rfloor>; d = x - of_int f in
            if d < 1 / 2 then f
            else if 1 / 2 < d then f + 1
            else if even f then f else f + 1)"

text \<open>
  \<open>ilog2 x\<close> is the binary exponent of a positive real: the integer \<open>k\<close> with
  \<open>2^k \<le> x < 2^(k+1)\<close>, computed from the bit length of an integer.
\<close>

definition ilog2 :: "real \<Rightarrow> int" where
  "ilog2 x = (if 1 \<le> x then bitlen \<lfloor>x\<rfloor> - 1 else - bitlen (\<lceil>1 / x\<rceil> - 1))"

text \<open>
  \<open>fl x\<close> is \<open>x\<close> rounded to 53 significant bits, ties to even: the value a binary64
  operation returns for the exact result \<open>x\<close> (exponent range unbounded in the model).
\<close>

definition fl :: "real \<Rightarrow> real" where
  "fl x = (if x = 0 then 0
           else let e = ilog2 \<bar>x\<bar> - 52 in of_int (rhe (x / 2 powi e)) * 2 powi e)"

text \<open>A real number is a float when rounding leaves it unchanged.\<close>

definition is_float :: "real \<Rightarrow> bool" where
  "is_float x \<longleftrightarrow> fl x = x"

definition fmul :: "real \<Rightarrow> real \<Rightarrow> real" where
  "fmul x y = fl (x * y)"

definition fdiv :: "real \<Rightarrow> real \<Rightarrow> real" where
  "fdiv x y = fl (x / y)"

definition fadd :: "real \<Rightarrow> real \<Rightarrow> real" where
  "fadd x y = fl (x + y)"

subsection \<open>Formatting numbers\<close>

definition digit_char :: "nat \<Rightarrow> char" where
  "digit_char n = char_of (48 + n)"

fun show_nat :: "nat \<Rightarrow> string" where
  "show_nat n = (if n < 10 then [digit_char n]
                 else show_nat (n div 10) @ [digit_char (n mod 10)])"

declare show_nat.simps [simp del]

text \<open>The last \<open>d\<close> decimal digits of a number, padded with zeros on the left.\<close>

fun frac_digits :: "nat \<Rightarrow> nat \<Rightarrow> string" where
  "frac_digits 0 m = []"
| "frac_digits (Suc d) m = frac_digits d (m div 10) @ [digit_char (m mod 10)]"

text \<open>The thousands separator of the format option \<^verbatim>\<open>,\<close>.\<close>

fun show_grouped :: "nat \<Rightarrow> string" where
  "show_grouped n = (if n < 1000 then show_nat n
                     else show_grouped (n div 1000) @ '','' @ frac_digits 3 (n mod 1000))"

declare show_grouped.simps [simp del]

text \<open>
  The format specifications \<^verbatim>\<open>.df\<close> and \<^verbatim>\<open>,.df\<close> of a finite float: the exact value is
  rounded to \<open>d\<close> decimals, ties to even; the sign is that of the value itself.
\<close>

definition format_f :: "bool \<Rightarrow> nat \<Rightarrow> real \<Rightarrow> string" where
  "format_f grouped d x =
     (let m = nat \<bar>rhe (x * 10 ^ d)\<bar>;
          ip = m div 10 ^ d;
          fp = m mod 10 ^ d
      in (if x < 0 then ''-'' else [])
         @ (if grouped then show_grouped ip else show_nat ip)
         @ (if d = 0 then [] else ''.'' @ frac_digits d fp))"

text \<open>
  The format specification \<^verbatim>\<open>.d%\<close>: the float is multiplied by 100 (a float
  multiplication) and formatted as \<^verbatim>\<open>.df\<close>, followed by a percent sign.
\<close>

definition format_pct :: "nat \<Rightarrow> real \<Rightarrow> string" where
  "format_pct d x = format_f False d (fmul x 100) @ ''%''"

text \<open>An integer as \<^verbatim>\<open>str\<close> and the f-strings print it.\<close>

definition show_int :: "int \<Rightarrow> string" where
  "show_int i = (if i < 0 then ''-'' else []) @ show_nat (nat \<bar>i\<bar>)"

subsection \<open>Currency helpers\<close>

text \<open>The rupee sign U+20B9, as the bytes of its UTF-8 encoding.\<close>

definition rupee :: string where
  "rupee = [CHR 0xE2, CHR 0x82, CHR 0xB9]"

definition convert_usd_to_inr :: "real \<Rightarrow> real" where
  "convert_usd_to_inr usd_amount = fmul usd_amount USD_TO_INR"

definition format_rupees :: "real \<Rightarrow> string" where
  "format_rupees amount =
     (if amount \<ge> 10000000 then rupee @ format_f False 2 (fdiv amount 10000000) @ '' crore''
      else if amount \<ge> 100000 then rupee @ format_f False 2 (fdiv amount 100000) @ '' lakh''
      else rupee @ format_f True 0 amount)"

subsection \<open>The library function \<^verbatim>\<open>np.expm1\<close>\<close>

text \<open>
  \<^verbatim>\<open>np.expm1\<close> belongs to NumPy, not to this program: the definitions that call it take
  it as the parameter \<open>np_expm1\<close>. The library evaluates \<open>exp y - 1\<close> in binary64: up to
  the overflow threshold (\<open>exp 709\<close> is still below \<open>2^1024\<close>) its result is a float
  within a few units in the last place of the exact value. \<open>expm1_accurate\<close> states
  this contract with the relative bound \<open>2^-50\<close>; \<open>expm1_rounded\<close>, the correctly rounded
  evaluation, is one function that meets it.
\<close>

definition expm1_accurate :: "(real \<Rightarrow> real) \<Rightarrow> bool" where
  "expm1_accurate f \<longleftrightarrow>
     (\<forall>y. y \<le> 709 \<longrightarrow> is_float (f y) \<and> \<bar>f y - (exp y - 1)\<bar> \<le> \<bar>exp y - 1\<bar> / 2 ^ 50)"

definition expm1_rounded :: "real \<Rightarrow> real" where
  "expm1_rounded y = fl (exp y - 1)"

subsection \<open>The map renderer\<close>

text \<open>
  The popup of the marker is an HTML f-string; the record keeps its interpolated parts in
  the order the f-string evaluates them.
\<close>

record popup =
  popup_city :: string
  popup_color :: string
  popup_risk_level :: string
  popup_p_high :: string
  popup_damage :: string
  popup_lat :: string
  popup_lon :: string
  popup_max_width :: int

record folium_marker =
  marker_location :: "real \<times> real"
  marker_popup :: popup
  marker_tooltip :: string
  icon_color :: string
  icon_name :: string

record folium_circle =
  circle_location :: "real \<times> real"
  circle_radius :: int
  circle_popup :: string
  circle_color :: string
  circle_fill :: bool
  circle_fill_opacity :: real
  circle_weight :: int

record folium_map =
  map_location :: "real \<times> real"
  zoom_start :: int
  tiles :: string
  map_marker :: folium_marker
  map_circle :: folium_circle

text \<open>The round pushpin U+1F4CD of the tooltip, as UTF-8 bytes.\<close>

definition pushpin :: string where
  "pushpin = [CHR 0xF0, CHR 0x9F, CHR 0x93, CHR 0x8D]"

text \<open>
  Lines 92 to 100 choose the marker colour and the radius; the popup and the circle then
  read \<^verbatim>\<open>RISK_COLORS[risk_level]\<close>, which raises \<^verbatim>\<open>KeyError\<close> for a level that is not a
  key of the dictionary.
\<close>

definition create_interactive_map ::
  "real \<Rightarrow> real \<Rightarrow> string \<Rightarrow> real \<Rightarrow> real \<Rightarrow> string \<Rightarrow> py_error + folium_map" where
  "create_interactive_map lat lon risk_level p_high pred_damage_inr city_name =
     (let (icon_col, risk_radius) =
            (if risk_level = ''High'' then (''red'', 3000)
             else if risk_level = ''Medium'' then (''orange'', 2000)
             else (''green'', 1000))
      in case subscript RISK_COLORS risk_level of
           Inl e \<Rightarrow> Inl e
         | Inr col \<Rightarrow>
             Inr \<lparr> map_location = (lat, lon),
                   zoom_start = 13,
                   tiles = ''OpenStreetMap'',
                   map_marker =
                     \<lparr> marker_location = (lat, lon),
                       marker_popup =
                         \<lparr> popup_city = city_name,
                           popup_color = col,
                           popup_risk_level = risk_level,
                           popup_p_high = format_pct 1 p_high,
                           popup_damage = rupee @ format_f True 0 pred_damage_inr,
                           popup_lat = format_f False 6 lat,
                           popup_lon = format_f False 6 lon,
                           popup_max_width = 300 \<rparr>,
                       marker_tooltip = pushpin @ '' '' @ city_name @ '' - '' @ risk_level @ '' Risk'',
                       icon_color = icon_col,
                       icon_name = ''info-sign'' \<rparr>,
                   map_circle =
                     \<lparr> circle_location = (lat, lon),
                       circle_radius = risk_radius,
                       circle_popup = ''Risk Impact Area (~'' @ show_int risk_radius @ ''m radius)'',
                       circle_color = col,
                       circle_fill = True,
                       circle_fill_opacity = fl (2 / 10),
                       circle_weight = 3 \<rparr> \<rparr>)"

subsection \<open>What the page shows\<close>

datatype static_section =
  EmergencyContacts | SafetyGuidelines | EmergencyKit | AffectedGuidelines
  | HelpOthers | DonationSection | AwarenessFacts

datatype chart = RiskProbabilities "real list" | DamageEstimate real

text \<open>
  \<^verbatim>\<open>plot_risk_probabilities\<close> draws three bars, one for each label of \<^verbatim>\<open>RISK_LABELS\<close>, with
  the probabilities as heights: \<^verbatim>\<open>ax.bar\<close> broadcasts the three labels against the heights
  and raises \<^verbatim>\<open>ValueError\<close> unless there are three heights, or one. The message is the
  library's and is kept by its first sentence.
\<close>

definition plot_risk_probabilities :: "real list \<Rightarrow> py_error + chart" where
  "plot_risk_probabilities probas =
     (if length probas = 3 \<or> length probas = 1 then Inr (RiskProbabilities probas)
      else Inl (ValueError ''shape mismatch: objects cannot be broadcast to a single shape''))"

definition plot_damage_estimate :: "real \<Rightarrow> chart" where
  "plot_damage_estimate pred_damage_inr = DamageEstimate pred_damage_inr"

text \<open>
  One constructor for each kind of Streamlit call that writes to the page; a long
  message is kept by its headline. \<open>StStatic\<close> stands for one \<^verbatim>\<open>display_...\<close> function,
  whose content is fixed.
\<close>

datatype ui_event =
  StSuccess string
  | StError string
  | StWarning string
  | StInfo string
  | StHeader string
  | StSubheader string
  | StMetric string string
  | StPyplot chart
  | FoliumStatic folium_map
  | StStatic static_section

definition static_content :: "ui_event list" where
  "static_content = [StStatic EmergencyContacts, StStatic SafetyGuidelines, StStatic EmergencyKit,
                     StStatic AffectedGuidelines, StStatic HelpOthers, StStatic DonationSection,
                     StStatic AwarenessFacts]"

subsection \<open>Loading the models\<close>

text \<open>A row of the input frame: one value for each column, absent (NaN) when missing.\<close>

type_synonym row = "real option list"

record classifier =
  predict_proba :: "row \<Rightarrow> py_error + real list"
  predict :: "row \<Rightarrow> py_error + int"

record regressor =
  reg_predict :: "row \<Rightarrow> py_error + real"

definition ascii_lower :: "string \<Rightarrow> string" where
  "ascii_lower s = map (\<lambda>c. let n = (of_char c :: nat) in
                              if 65 \<le> n \<and> n \<le> 90 then char_of (n + 32) else c) s"

fun contains :: "string \<Rightarrow> string \<Rightarrow> bool" where
  "contains sub [] = (sub = [])"
| "contains sub (c # cs) = (take (length sub) (c # cs) = sub \<or> contains sub cs)"

definition cross_mark :: string where
  "cross_mark = [CHR 0xE2, CHR 0x9D, CHR 0x8C]"

definition check_mark :: string where
  "check_mark = [CHR 0xE2, CHR 0x9C, CHR 0x85]"

text \<open>The handler \<^verbatim>\<open>except Exception as e\<close> of \<^verbatim>\<open>load_models\<close>.\<close>

definition load_failed :: "py_error \<Rightarrow> ui_event list \<times> classifier option \<times> regressor option" where
  "load_failed e =
     ([StError (cross_mark @ '' Model loading failed: '' @ str_of_error e),
       (if contains ''lightgbm'' (ascii_lower (str_of_error e))
        then StInfo ''Missing LightGBM package. Install it with:''
        else StInfo ''Common solutions:'')],
      None, None)"

text \<open>
  The two arguments are the outcomes of the two calls of \<^verbatim>\<open>joblib.load\<close>; the second
  call is made only when the first has returned. The function is taken at its first call:
  the cache of \<^verbatim>\<open>st.cache_resource\<close> is not modelled.
\<close>

definition load_models ::
  "py_error + classifier \<Rightarrow> py_error + regressor
     \<Rightarrow> ui_event list \<times> classifier option \<times> regressor option" where
  "load_models clf_load reg_load =
     (case clf_load of
        Inl e \<Rightarrow> load_failed e
      | Inr clf \<Rightarrow>
          (case reg_load of
             Inl e \<Rightarrow> load_failed e
           | Inr reg \<Rightarrow>
               ([StSuccess (check_mark @ '' Models loaded successfully!'')], Some clf, Some reg)))"

subsection \<open>The prediction block of \<^verbatim>\<open>main\<close>\<close>

text \<open>
  The eight widgets of the sidebar form that fill the dictionary \<^verbatim>\<open>features\<close>, in the order
  of lines 418 to 453: \<^verbatim>\<open>st.number_input\<close> with its \<^verbatim>\<open>value\<close>, \<^verbatim>\<open>min_value\<close> and \<^verbatim>\<open>step\<close>, and
  \<^verbatim>\<open>st.slider\<close> with its minimum, maximum, value and step.
\<close>

datatype widget = NumberInput real real real | Slider real real real real

definition feature_widgets :: "(string \<times> widget) list" where
  "feature_widgets =
     [(''rainfall_mm'', NumberInput 15 0 1),
      (''rain_7d'', NumberInput 65 0 5),
      (''rain_30d'', NumberInput 180 0 10),
      (''elevation'', NumberInput 250 0 10),
      (''dist_to_river'', NumberInput (3 / 2) 0 (fl (1 / 10))),
      (''population_density'', NumberInput 1200 0 100),
      (''impervious_frac'', Slider 0 1 (fl (4 / 10)) (fl (5 / 100))),
      (''land_cover_index'', Slider 0 1 (fl (6 / 10)) (fl (5 / 100)))]"

text \<open>
  The values read from the sidebar form: \<open>ui_value inp k\<close> is what the widget of the
  feature \<open>k\<close> returns.
\<close>

record ui_inputs =
  ui_value :: "string \<Rightarrow> real"
  ui_lat :: real
  ui_lon :: real
  ui_city_name :: string
  ui_predict_pressed :: bool

text \<open>The dictionary \<^verbatim>\<open>features\<close>: one entry for each widget, keyed by the feature's name.\<close>

definition features :: "ui_inputs \<Rightarrow> (string \<rightharpoonup> real)" where
  "features inp = map_of (map (\<lambda>(k, w). (k, ui_value inp k)) feature_widgets)"

text \<open>
  \<^verbatim>\<open>pd.DataFrame([features], columns=NUM_FEATURES)\<close>: one row holding the value of each
  column of \<^verbatim>\<open>NUM_FEATURES\<close> in that order; a column that is not a key of the dictionary
  is filled with NaN, a key that is not a column is dropped. Nothing is checked.
\<close>

definition X_input :: "(string \<rightharpoonup> real) \<Rightarrow> row" where
  "X_input fs = map fs NUM_FEATURES"

definition pred_damage_usd :: "(real \<Rightarrow> real) \<Rightarrow> real \<Rightarrow> real" where
  "pred_damage_usd np_expm1 pred_log = np_expm1 pred_log"

definition pred_damage_inr :: "(real \<Rightarrow> real) \<Rightarrow> real \<Rightarrow> real" where
  "pred_damage_inr np_expm1 pred_log = convert_usd_to_inr (pred_damage_usd np_expm1 pred_log)"

text \<open>
  The alert of lines 523 to 545. The literals \<^verbatim>\<open>0.6\<close> and \<^verbatim>\<open>0.3\<close> are the floats
  nearest to 6/10 and 3/10.
\<close>

definition high_alert :: ui_event where
  "high_alert = StError ''**CRITICAL ALERT - HIGH FLOOD RISK DETECTED**''"

definition medium_alert :: ui_event where
  "medium_alert = StWarning ''**MEDIUM RISK - INCREASED VIGILANCE REQUIRED**''"

definition low_alert :: ui_event where
  "low_alert = StSuccess ''**LOW RISK - NORMAL CONDITIONS**''"

definition risk_assessment :: "string \<Rightarrow> real \<Rightarrow> ui_event" where
  "risk_assessment pred_label p_high =
     (if pred_label = ''High'' \<or> p_high > fl (6 / 10) then high_alert
      else if pred_label = ''Medium'' \<or> p_high > fl (3 / 10) then medium_alert
      else low_alert)"

text \<open>
  The body of the \<^verbatim>\<open>try\<close> statement: the events written so far, and the exception that
  ended it, if any. What was written before an exception stays on the page.
\<close>

definition predict_block ::
  "(real \<Rightarrow> real) \<Rightarrow> classifier \<Rightarrow> regressor \<Rightarrow> ui_inputs
     \<Rightarrow> ui_event list \<times> py_error option" where
  "predict_block np_expm1 clf reg inp =
     (let X = X_input (features inp) in
      (case predict_proba clf X of
         Inl e \<Rightarrow> ([], Some e)
       | Inr probas \<Rightarrow>
      (case predict clf X of
         Inl e \<Rightarrow> ([], Some e)
       | Inr pred_idx \<Rightarrow>
      (case RISK_LABELS pred_idx of
         None \<Rightarrow> ([], Some (KeyError (show_int pred_idx)))
       | Some pred_label \<Rightarrow>
      (case reg_predict reg X of
         Inl e \<Rightarrow> ([], Some e)
       | Inr pred_log \<Rightarrow>
      (let inr = pred_damage_inr np_expm1 pred_log;
           ev1 = [StHeader ''Prediction Results'', StMetric ''Risk Level'' pred_label]
       in if length probas \<le> 2 then (ev1, Some IndexError)
          else
            (let p_high = probas ! 2;
                 ev2 = ev1 @
                  [StMetric ''High Risk Probability'' (format_pct 1 p_high),
                   StMetric ''Estimated Damage'' (format_rupees inr),
                   StMetric ''Model Confidence'' (format_pct 1 (Max (set probas))),
                   StInfo (''**Analysis for:** '' @ ui_city_name inp @ '' at ''
                           @ format_f False 6 (ui_lat inp) @ '', ''
                           @ format_f False 6 (ui_lon inp)),
                   StSubheader ''Risk Assessment'',
                   risk_assessment pred_label p_high,
                   StSubheader ''Risk Analysis'']
             in (case plot_risk_probabilities probas of
                   Inl e \<Rightarrow> (ev2, Some e)
                 | Inr fig \<Rightarrow>
                (let ev3 = ev2 @
                      [StPyplot fig,
                       StPyplot (plot_damage_estimate inr),
                       StSubheader ''Location Map - Full Screen View'',
                       StInfo ''**Map Features:**'']
                 in (case create_interactive_map (ui_lat inp) (ui_lon inp) pred_label p_high
                            inr (ui_city_name inp) of
                       Inl e \<Rightarrow> (ev3, Some e)
                     | Inr map_obj \<Rightarrow> (ev3 @ [FoliumStatic map_obj], None)))))))))))"

text \<open>The \<^verbatim>\<open>try\<close> statement with its handler \<^verbatim>\<open>except Exception as e\<close>.\<close>

definition prediction ::
  "(real \<Rightarrow> real) \<Rightarrow> classifier \<Rightarrow> regressor \<Rightarrow> ui_inputs \<Rightarrow> ui_event list" where
  "prediction np_expm1 clf reg inp =
     (case predict_block np_expm1 clf reg inp of
        (evs, None) \<Rightarrow> evs
      | (evs, Some e) \<Rightarrow>
          evs @ [StError (''Prediction error: '' @ str_of_error e),
                 StInfo ''Please check all input values and try again.''])"

subsection \<open>\<^verbatim>\<open>main\<close>\<close>

text \<open>
  The events \<^verbatim>\<open>main\<close> writes, given the library function, the outcomes of the two model
  loads and the values of the sidebar form. The form itself (its headers, widgets and notes in the sidebar) is
  represented by the values read from it.
\<close>

definition main ::
  "(real \<Rightarrow> real) \<Rightarrow> py_error + classifier \<Rightarrow> py_error + regressor \<Rightarrow> ui_inputs
     \<Rightarrow> ui_event list" where
  "main np_expm1 clf_load reg_load inp =
     (case load_models clf_load reg_load of
        (evs, Some clf, Some reg) \<Rightarrow>
          evs @ (if ui_predict_pressed inp then prediction np_expm1 clf reg inp else [])
              @ static_content
      | (evs, _, _) \<Rightarrow>
          evs @ [StInfo ''## Installation Instructions''] @ static_content)"

subsection \<open>What the widgets guarantee\<close>



text \<open>The form as it is before the user touches it: each widget returns its \<^verbatim>\<open>value\<close>.\<close>

fun widget_default :: "widget \<Rightarrow> real" where
  "widget_default (NumberInput v0 min_value step) = v0"
| "widget_default (Slider min_value max_value v0 step) = v0"

definition default_value :: "string \<Rightarrow> real" where
  "default_value k = (case map_of feature_widgets k of Some w \<Rightarrow> widget_default w | None \<Rightarrow> 0)"

subsection \<open>The tier selection rule as the specification words it\<close>

text \<open>
  The three tiers, the rule of the specification with the decimal thresholds 0.6 and
  0.3, and the alert that presents a tier.
\<close>

datatype tier = Low | Medium | High

fun tier_alert :: "tier \<Rightarrow> ui_event" where
  "tier_alert High = high_alert"
| "tier_alert Medium = medium_alert"
| "tier_alert Low = low_alert"

definition spec_tier :: "string \<Rightarrow> real \<Rightarrow> tier" where
  "spec_tier predicted_class p_high =
     (if predicted_class = ''High'' \<or> p_high > 6 / 10 then High
      else if predicted_class = ''Medium'' \<or> p_high > 3 / 10 then Medium
      else Low)"

fun severity :: "tier \<Rightarrow> nat" where
  "severity Low = 0"
| "severity Medium = 1"
| "severity High = 2"

text \<open>
  The tier an alert presents (\<^verbatim>\<open>st.error\<close> for High, \<^verbatim>\<open>st.warning\<close> for Medium), and the
  two candidate tiers: that of the predicted class and that of the probability alone.
\<close>

fun alert_tier :: "ui_event \<Rightarrow> tier" where
  "alert_tier (StError msg) = High"
| "alert_tier (StWarning msg) = Medium"
| "alert_tier ev = Low"

definition class_tier :: "string \<Rightarrow> tier" where
  "class_tier predicted_class =
     (if predicted_class = ''High'' then High
      else if predicted_class = ''Medium'' then Medium else Low)"

definition probability_tier :: "real \<Rightarrow> tier" where
  "probability_tier p_high =
     (if p_high > 6 / 10 then High else if p_high > 3 / 10 then Medium else Low)"

section \<open>Properties\<close>

subsection \<open>Rounding\<close>

lemma rhe_of_int: "rhe (of_int n) = n"
  by (simp add: rhe_def Let_def)

lemma rhe_err: "\<bar>of_int (rhe x) - x\<bar> \<le> 1 / 2"
proof -
  have "of_int \<lfloor>x\<rfloor> \<le> x" "x < of_int \<lfloor>x\<rfloor> + 1" by linarith+
  then show ?thesis unfolding rhe_def Let_def by (simp add: abs_le_iff)
qed

lemma floorlog2_bounds:
  assumes "0 < n"
  shows "(2::real) ^ (floorlog 2 n - 1) \<le> real n" "real n + 1 \<le> 2 ^ floorlog 2 n"
proof -
  have a: "2 ^ (floorlog 2 n - 1) \<le> n" and b: "n < 2 ^ floorlog 2 n"
    using floorlog_bounds [of n 2] assms by auto
  from a have "real (2 ^ (floorlog 2 n - 1)) \<le> real n" by (simp only: of_nat_le_iff)
  then show "(2::real) ^ (floorlog 2 n - 1) \<le> real n" by simp
  from b have "Suc n \<le> 2 ^ floorlog 2 n" by simp
  then have "real (Suc n) \<le> real (2 ^ floorlog 2 n)" by (simp only: of_nat_le_iff)
  then show "real n + 1 \<le> 2 ^ floorlog 2 n" by simp
qed

lemma floorlog2_pos: "0 < n \<Longrightarrow> 0 < floorlog 2 n"
  by (simp add: floorlog_def)

lemma ilog2_ge1:
  assumes "1 \<le> x"
  shows "2 powi (ilog2 x) \<le> x" and "x < 2 powi (ilog2 x + 1)"
proof -
  define n where "n = nat \<lfloor>x\<rfloor>"
  have f: "1 \<le> \<lfloor>x\<rfloor>" using assms by simp
  have rn: "real n = of_int \<lfloor>x\<rfloor>" using f by (simp add: n_def)
  have n0: "0 < n" using f by (simp add: n_def)
  have lo: "real n \<le> x" and hi: "x < real n + 1" unfolding rn by linarith+
  have p: "0 < floorlog 2 n" by (rule floorlog2_pos [OF n0])
  have e1: "ilog2 x = int (floorlog 2 n - 1)"
    using assms p by (simp add: ilog2_def bitlen_def n_def)
  have e2: "ilog2 x + 1 = int (floorlog 2 n)"
    using assms p by (simp add: ilog2_def bitlen_def n_def)
  have "(2::real) ^ (floorlog 2 n - 1) \<le> x"
    using floorlog2_bounds(1) [OF n0] lo by linarith
  then show "2 powi (ilog2 x) \<le> x" unfolding e1 by (simp only: power_int_of_nat)
  have "x < (2::real) ^ floorlog 2 n"
    using floorlog2_bounds(2) [OF n0] hi by linarith
  then show "x < 2 powi (ilog2 x + 1)" unfolding e2 by (simp only: power_int_of_nat)
qed

lemma ilog2_lt1:
  assumes "0 < x" "x < 1"
  shows "2 powi (ilog2 x) \<le> x" and "x < 2 powi (ilog2 x + 1)"
proof -
  define m where "m = nat (\<lceil>1 / x\<rceil> - 1)"
  define j where "j = floorlog 2 m"
  have y: "1 < 1 / x" using assms by simp
  have c: "2 \<le> \<lceil>1 / x\<rceil>" using y by (simp add: le_ceiling_iff)
  have c0: "0 \<le> \<lceil>1 / x\<rceil> - 1" using c by linarith
  have "real m = of_int (\<lceil>1 / x\<rceil> - 1)" unfolding m_def by (rule of_nat_nat [OF c0])
  then have rm: "real m = of_int \<lceil>1 / x\<rceil> - 1" by simp
  have "0 < \<lceil>1 / x\<rceil> - 1" using c by linarith
  then have m0: "0 < m" unfolding m_def by (simp only: zero_less_nat_eq)
  have lo: "real m < 1 / x" and hi: "1 / x \<le> real m + 1" unfolding rm by linarith+
  have j0: "0 < j" unfolding j_def by (rule floorlog2_pos [OF m0])
  have e1: "ilog2 x = - int j" using assms by (simp add: ilog2_def bitlen_def m_def j_def)
  have e2: "ilog2 x + 1 = - int (j - 1)" using assms j0 by (simp add: ilog2_def bitlen_def m_def j_def)
  have "1 / x \<le> 2 ^ j"
    using floorlog2_bounds(2) [OF m0] hi unfolding j_def by linarith
  then have "1 \<le> 2 ^ j * x" using assms(1) by (simp add: pos_divide_le_eq)
  then have "inverse (2 ^ j) \<le> x" by (simp add: inverse_eq_divide pos_divide_le_eq mult.commute)
  then show "2 powi (ilog2 x) \<le> x" unfolding e1 by (simp only: power_int_minus power_int_of_nat)
  have "2 ^ (j - 1) < 1 / x"
    using floorlog2_bounds(1) [OF m0] lo unfolding j_def by linarith
  then have "2 ^ (j - 1) * x < 1" using assms(1) by (simp add: pos_less_divide_eq)
  then have "x < inverse (2 ^ (j - 1))" by (simp add: inverse_eq_divide pos_less_divide_eq mult.commute)
  then show "x < 2 powi (ilog2 x + 1)" unfolding e2 by (simp only: power_int_minus power_int_of_nat)
qed

lemma ilog2_lower: "0 < x \<Longrightarrow> 2 powi (ilog2 x) \<le> x"
  using ilog2_ge1(1) [of x] ilog2_lt1(1) [of x] by (cases "1 \<le> x") auto

lemma ilog2_upper: "0 < x \<Longrightarrow> x < 2 powi (ilog2 x + 1)"
  using ilog2_ge1(2) [of x] ilog2_lt1(2) [of x] by (cases "1 \<le> x") auto

lemma powi2_less_imp: "(2::real) powi a < 2 powi b \<Longrightarrow> a < b"
  using power_int_increasing [of b a "2::real"] by (cases "a < b") auto

lemma ilog2_unique:
  assumes "2 powi k \<le> x" "x < 2 powi (k + 1)"
  shows "ilog2 x = k"
proof -
  have "(0::real) < 2 powi k" by simp
  with assms(1) have x: "0 < x" by linarith
  have "(2::real) powi k < 2 powi (ilog2 x + 1)"
    using assms(1) ilog2_upper [OF x] by linarith
  then have a: "k < ilog2 x + 1" by (rule powi2_less_imp)
  have "(2::real) powi (ilog2 x) < 2 powi (k + 1)"
    using assms(2) ilog2_lower [OF x] by linarith
  then have "ilog2 x < k + 1" by (rule powi2_less_imp)
  with a show ?thesis by simp
qed

lemma fl_unfold:
  assumes "x \<noteq> 0"
  shows "fl x = of_int (rhe (x / 2 powi (ilog2 \<bar>x\<bar> - 52))) * 2 powi (ilog2 \<bar>x\<bar> - 52)"
  using assms by (simp add: fl_def Let_def)

lemma fl_rel_err: "\<bar>fl x - x\<bar> \<le> \<bar>x\<bar> / 2 ^ 53"
proof (cases "x = 0")
  case True
  then show ?thesis by (simp add: fl_def)
next
  case False
  define q :: real where "q = 2 powi (ilog2 \<bar>x\<bar> - 52)"
  have q0: "0 < q" by (simp add: q_def)
  have "2 powi (ilog2 \<bar>x\<bar>) \<le> \<bar>x\<bar>" using False by (intro ilog2_lower) simp
  moreover have "(2::real) powi (ilog2 \<bar>x\<bar>) = q * 2 ^ 52"
    unfolding q_def by (simp add: power_int_diff)
  ultimately have qx: "q * 2 ^ 52 \<le> \<bar>x\<bar>" by simp
  have "fl x - x = (of_int (rhe (x / q)) - x / q) * q"
    using q0 fl_unfold [OF False] by (simp add: q_def [symmetric] algebra_simps)
  then have "\<bar>fl x - x\<bar> = \<bar>of_int (rhe (x / q)) - x / q\<bar> * q"
    using q0 by (simp add: abs_mult)
  also have "\<dots> \<le> (1 / 2) * q"
    using rhe_err [of "x / q"] q0 by (intro mult_right_mono) simp_all
  also have "\<dots> \<le> \<bar>x\<bar> / 2 ^ 53" using qx by simp
  finally show ?thesis .
qed

lemma fl_exactI:
  assumes "x \<noteq> 0" "x = of_int m * 2 powi (ilog2 \<bar>x\<bar> - 52)"
  shows "fl x = x"
proof -
  define q :: real where "q = 2 powi (ilog2 \<bar>x\<bar> - 52)"
  have q0: "q \<noteq> 0" by (simp add: q_def)
  have "x / q = of_int m" using assms(2) q0 unfolding q_def [symmetric] by simp
  then have "rhe (x / q) = m" by (simp add: rhe_of_int)
  then show ?thesis using fl_unfold [OF assms(1)] assms(2) unfolding q_def [symmetric] by simp
qed

lemma fl_of_int:
  assumes "\<bar>n\<bar> < 2 ^ 53"
  shows "fl (of_int n) = of_int n"
proof (cases "n = 0")
  case True
  then show ?thesis by (simp add: fl_def)
next
  case False
  define x :: real where "x = of_int n"
  define k where "k = ilog2 \<bar>x\<bar>"
  have x1: "1 \<le> \<bar>x\<bar>" using False unfolding x_def by (simp flip: of_int_abs)
  have x2: "\<bar>x\<bar> < 2 ^ 53" using assms unfolding x_def
    by (metis of_int_abs of_int_less_iff of_int_numeral of_int_power)
  have "(2::real) powi k < 2 powi 53"
    using ilog2_ge1(1) [OF x1] x2 unfolding k_def by simp
  then have k1: "k < 53" by (rule powi2_less_imp)
  have "(2::real) powi 0 < 2 powi (k + 1)"
    using ilog2_ge1(2) [OF x1] x1 unfolding k_def by simp
  then have k0: "0 < k + 1" by (rule powi2_less_imp)
  define d where "d = nat (52 - k)"
  have e: "k - 52 = - int d" using k1 by (simp add: d_def)
  have "x = of_int (n * 2 ^ d) * 2 powi (k - 52)"
    unfolding e x_def by (simp add: power_int_minus)
  then have "x = of_int (n * 2 ^ d) * 2 powi (ilog2 \<bar>x\<bar> - 52)" by (simp only: k_def)
  moreover have "x \<noteq> 0" using x1 by auto
  ultimately have "fl x = x" by (rule fl_exactI [rotated])
  then show ?thesis by (simp only: x_def)
qed

lemma fl_06: "fl (6 / 10) = 5404319552844595 / 2 ^ 53"
  by code_simp

lemma fl_03: "fl (3 / 10) = 5404319552844595 / 2 ^ 54"
  by code_simp

lemma float_grid:
  assumes "fl p = p" "2 powi k \<le> p" "p < 2 powi (k + 1)"
  shows "\<exists>N::int. p = of_int N * 2 powi (k - 52)"
proof -
  have "(0::real) < 2 powi k" by simp
  with assms(2) have p0: "0 < p" by linarith
  have "ilog2 \<bar>p\<bar> = k" using assms(2,3) p0 by (intro ilog2_unique) simp_all
  then have "fl p = of_int (rhe (p / 2 powi (k - 52))) * 2 powi (k - 52)"
    using fl_unfold [of p] p0 by simp
  with assms(1) show ?thesis by metis
qed

lemma float_gt_06:
  assumes "fl p = p"
  shows "p > fl (6 / 10) \<longleftrightarrow> p > 6 / 10"
proof
  assume "p > 6 / 10"
  then show "p > fl (6 / 10)" unfolding fl_06 by simp
next
  assume a: "p > fl (6 / 10)"
  show "p > 6 / 10"
  proof (cases "p < 1")
    case False
    then show ?thesis by simp
  next
    case True
    have "2 powi (-1) \<le> p" using a unfolding fl_06 by simp
    moreover have "p < 2 powi (-1 + 1)" using True by simp
    ultimately obtain N :: int where N: "p = of_int N * 2 powi (-1 - 52)"
      using float_grid [OF assms] by blast
    then have pN: "p = of_int N / 2 ^ 53" by (simp add: power_int_minus field_simps)
    with a have "real_of_int 5404319552844595 < of_int N" unfolding fl_06 by (simp add: field_simps)
    then have "5404319552844595 < N" by (simp only: of_int_less_iff)
    then have "5404319552844596 \<le> N" by simp
    then have "real_of_int 5404319552844596 \<le> of_int N" by (simp only: of_int_le_iff)
    then show ?thesis unfolding pN by (simp add: field_simps)
  qed
qed

lemma float_gt_03:
  assumes "fl p = p"
  shows "p > fl (3 / 10) \<longleftrightarrow> p > 3 / 10"
proof
  assume "p > 3 / 10"
  then show "p > fl (3 / 10)" unfolding fl_03 by simp
next
  assume a: "p > fl (3 / 10)"
  show "p > 3 / 10"
  proof (cases "p < 1 / 2")
    case False
    then show ?thesis by simp
  next
    case True
    have "2 powi (-2) \<le> p" using a unfolding fl_03 by simp
    moreover have "p < 2 powi (-2 + 1)" using True by simp
    ultimately obtain N :: int where N: "p = of_int N * 2 powi (-2 - 52)"
      using float_grid [OF assms] by blast
    then have pN: "p = of_int N / 2 ^ 54" by (simp add: power_int_minus field_simps)
    with a have "real_of_int 5404319552844595 < of_int N" unfolding fl_03 by (simp add: field_simps)
    then have "5404319552844595 < N" by (simp only: of_int_less_iff)
    then have "5404319552844596 \<le> N" by simp
    then have "real_of_int 5404319552844596 \<le> of_int N" by (simp only: of_int_le_iff)
    then show ?thesis unfolding pN by (simp add: field_simps)
  qed
qed

subsection \<open>Tier selection\<close>

lemma tier_alert_inj: "tier_alert t = tier_alert t' \<longleftrightarrow> t = t'"
  by (cases t; cases t') (simp_all add: high_alert_def medium_alert_def low_alert_def)

lemma alert_tier_tier_alert: "alert_tier (tier_alert t) = t"
  by (cases t) (simp_all add: high_alert_def medium_alert_def low_alert_def)

lemma is_float_fl_dyadic: "is_float (1 / 4)" "is_float (1 / 2)" "is_float (3 / 4)"
  unfolding is_float_def by code_simp+

text \<open>
  Claim C1. For every prediction the alert shown is the one of the tier that the rule
  selects: High when the predicted class is "High" or P(High) > 0.6, else Medium when the
  class is "Medium" or P(High) > 0.3, else Low. P(High) is a float; on floats the
  comparison with the literal \<^verbatim>\<open>0.6\<close> (the float nearest 6/10) agrees with the comparison
  with 6/10 itself, and likewise for 0.3.
\<close>

theorem risk_tier_precedence:
  assumes "is_float p_high"
  shows "risk_assessment pred_label p_high = tier_alert (spec_tier pred_label p_high)"
  using assms float_gt_06 [of p_high] float_gt_03 [of p_high]
  by (simp add: risk_assessment_def spec_tier_def is_float_def)

theorem risk_tier_precedence_witness:
  "is_float (3 / 4) \<and> risk_assessment ''Low'' (3 / 4) = high_alert
   \<and> is_float (1 / 2) \<and> risk_assessment ''Low'' (1 / 2) = medium_alert
   \<and> is_float (1 / 4) \<and> risk_assessment ''Medium'' (1 / 4) = medium_alert
   \<and> risk_assessment ''Low'' (1 / 4) = low_alert"
  using risk_tier_precedence [of "3 / 4" "''Low''"] risk_tier_precedence [of "1 / 2" "''Low''"]
    risk_tier_precedence [of "1 / 4" "''Medium''"] risk_tier_precedence [of "1 / 4" "''Low''"]
    is_float_fl_dyadic
  by (simp add: spec_tier_def)

lemma alert_tier_risk_assessment:
  "alert_tier (risk_assessment pred_label p_high) =
     (if pred_label = ''High'' \<or> p_high > fl (6 / 10) then High
      else if pred_label = ''Medium'' \<or> p_high > fl (3 / 10) then Medium else Low)"
  by (simp add: risk_assessment_def high_alert_def medium_alert_def low_alert_def)

lemma fl_03_less_06: "fl (3 / 10) < fl (6 / 10)"
  unfolding fl_03 fl_06 by simp

lemma fl_literals: "fl (2 / 10) < fl (3 / 10)" "fl (3 / 10) < fl (35 / 100)"
  "fl (35 / 100) < fl (6 / 10)" "fl (6 / 10) < fl (65 / 100)"
  by code_simp+

text \<open>
  Claim C4. For a fixed predicted class, raising P(High) never gives a less severe
  tier; the tier shown is the more severe of the tier of the class and the tier of the
  probability; with class "Low" the tier moves Low, Medium, High as P(High) goes
  through 0.2, 0.35 and 0.65.
\<close>

theorem tier_monotone:
  "(p1 \<le> p2 \<longrightarrow>
      severity (alert_tier (risk_assessment pred_label p1))
        \<le> severity (alert_tier (risk_assessment pred_label p2)))
   \<and> (is_float p \<longrightarrow>
      severity (alert_tier (risk_assessment pred_label p))
        = max (severity (class_tier pred_label)) (severity (probability_tier p)))
   \<and> alert_tier (risk_assessment ''Low'' (fl (2 / 10))) = Low
   \<and> alert_tier (risk_assessment ''Low'' (fl (35 / 100))) = Medium
   \<and> alert_tier (risk_assessment ''Low'' (fl (65 / 100))) = High"
proof (intro conjI impI)
  assume "p1 \<le> p2"
  then show "severity (alert_tier (risk_assessment pred_label p1))
        \<le> severity (alert_tier (risk_assessment pred_label p2))"
    using fl_03_less_06 by (auto simp: alert_tier_risk_assessment)
next
  assume "is_float p"
  then show "severity (alert_tier (risk_assessment pred_label p))
        = max (severity (class_tier pred_label)) (severity (probability_tier p))"
    using float_gt_06 [of p] float_gt_03 [of p]
    by (auto simp: alert_tier_risk_assessment is_float_def class_tier_def probability_tier_def)
next
  show "alert_tier (risk_assessment ''Low'' (fl (2 / 10))) = Low"
    using fl_literals fl_03_less_06 by (simp add: alert_tier_risk_assessment)
  show "alert_tier (risk_assessment ''Low'' (fl (35 / 100))) = Medium"
    using fl_literals by (simp add: alert_tier_risk_assessment)
  show "alert_tier (risk_assessment ''Low'' (fl (65 / 100))) = High"
    using fl_literals by (simp add: alert_tier_risk_assessment)
qed

theorem tier_monotone_witness:
  "(1 / 4 :: real) \<le> 3 / 4
   \<and> severity (alert_tier (risk_assessment ''Low'' (1 / 4)))
        \<le> severity (alert_tier (risk_assessment ''Low'' (3 / 4)))
   \<and> is_float (3 / 4)
   \<and> severity (alert_tier (risk_assessment ''Low'' (3 / 4))) = 2"
  using tier_monotone [of "1 / 4" "3 / 4" "''Low''" "3 / 4"] is_float_fl_dyadic
  by (simp add: class_tier_def probability_tier_def)

subsection \<open>The map\<close>

lemma RISK_COLORS_simps:
  "RISK_COLORS ''High'' = Some ''#dc3545''"
  "RISK_COLORS ''Medium'' = Some ''#ffc107''"
  "RISK_COLORS ''Low'' = Some ''#28a745''"
  by (simp_all add: RISK_COLORS_def)

lemma RISK_COLORS_None:
  "rl \<noteq> ''High'' \<Longrightarrow> rl \<noteq> ''Medium'' \<Longrightarrow> rl \<noteq> ''Low'' \<Longrightarrow> RISK_COLORS rl = None"
  by (simp add: RISK_COLORS_def)

lemma RISK_COLORS_dom: "RISK_COLORS rl = Some col \<Longrightarrow> rl = ''High'' \<or> rl = ''Medium'' \<or> rl = ''Low''"
  by (auto simp: RISK_COLORS_def split: if_splits)

text \<open>
  Claim C9. A map is rendered for each of the three tiers, and only for them; the radius
  of its circle is 3000 for High, 2000 for Medium and 1000 for Low, its marker is red,
  orange and green, and its circle has the colour of the tier in \<^verbatim>\<open>RISK_COLORS\<close>.
\<close>

theorem map_presentation_of_tier:
  "(\<exists>m. create_interactive_map lat lon ''High'' p_high damage city = Inr m
        \<and> circle_radius (map_circle m) = 3000
        \<and> icon_color (map_marker m) = ''red''
        \<and> circle_color (map_circle m) = ''#dc3545'')
   \<and> (\<exists>m. create_interactive_map lat lon ''Medium'' p_high damage city = Inr m
        \<and> circle_radius (map_circle m) = 2000
        \<and> icon_color (map_marker m) = ''orange''
        \<and> circle_color (map_circle m) = ''#ffc107'')
   \<and> (\<exists>m. create_interactive_map lat lon ''Low'' p_high damage city = Inr m
        \<and> circle_radius (map_circle m) = 1000
        \<and> icon_color (map_marker m) = ''green''
        \<and> circle_color (map_circle m) = ''#28a745'')
   \<and> (create_interactive_map lat lon risk_level p_high damage city = Inr m'
        \<longrightarrow> risk_level = ''High'' \<or> risk_level = ''Medium'' \<or> risk_level = ''Low'')"
  by (auto simp: create_interactive_map_def subscript_def RISK_COLORS_simps
           split: option.splits dest: RISK_COLORS_dom)

theorem map_presentation_of_tier_witness:
  "(\<exists>m. create_interactive_map 0 0 ''Medium'' 0 0 [] = Inr m
        \<and> circle_radius (map_circle m) = 2000
        \<and> icon_color (map_marker m) = ''orange''
        \<and> circle_color (map_circle m) = ''#ffc107'')"
  using map_presentation_of_tier [of 0 0 0 0 "[]" "''Medium''"]
  by simp

text \<open>
  Claim C10 as stated fails for a level that is not a key of \<^verbatim>\<open>RISK_COLORS\<close>: the renderer
  raises \<^verbatim>\<open>KeyError\<close> and no map with the Low presentation is produced.
\<close>

theorem map_unknown_level_counterexample:
  "create_interactive_map 0 0 ''Severe'' 0 0 [] = Inl (KeyError (repr_str ''Severe''))
   \<and> \<not> (\<exists>m. create_interactive_map 0 0 ''Severe'' 0 0 [] = Inr m
            \<and> icon_color (map_marker m) = ''green''
            \<and> circle_radius (map_circle m) = 1000)"
  by (simp add: create_interactive_map_def subscript_def RISK_COLORS_def)

text \<open>
  Claim C10, amended. A map rendered for a level other than "High" and "Medium" is the
  map of "Low", with a green marker and radius 1000, and that map is rendered; for a level
  outside the three labels the renderer raises \<^verbatim>\<open>KeyError\<close>, so nothing is escalated.
\<close>

theorem map_fallback:
  "(risk_level \<noteq> ''High'' \<and> risk_level \<noteq> ''Medium''
      \<and> create_interactive_map lat lon risk_level p_high damage city = Inr m
      \<longrightarrow> risk_level = ''Low''
          \<and> icon_color (map_marker m) = ''green''
          \<and> circle_radius (map_circle m) = 1000)
   \<and> (\<exists>m'. create_interactive_map lat lon ''Low'' p_high damage city = Inr m')
   \<and> (risk_level \<noteq> ''High'' \<and> risk_level \<noteq> ''Medium'' \<and> risk_level \<noteq> ''Low''
      \<longrightarrow> create_interactive_map lat lon risk_level p_high damage city
            = Inl (KeyError (repr_str risk_level)))"
  by (auto simp: create_interactive_map_def subscript_def RISK_COLORS_simps RISK_COLORS_None
           split: option.splits dest: RISK_COLORS_dom)

theorem map_fallback_witness:
  "(\<exists>m. create_interactive_map 0 0 ''Low'' 0 0 [] = Inr m
        \<and> icon_color (map_marker m) = ''green''
        \<and> circle_radius (map_circle m) = 1000)
   \<and> ''Severe'' \<noteq> ''High'' \<and> ''Severe'' \<noteq> ''Medium'' \<and> ''Severe'' \<noteq> ''Low''
   \<and> create_interactive_map 0 0 ''Severe'' 0 0 [] = Inl (KeyError (repr_str ''Severe''))"
proof -
  obtain m where m: "create_interactive_map 0 0 ''Low'' 0 0 [] = Inr m"
    using map_fallback [of "''Low''" 0 0 0 0 "[]"] by blast
  then have "icon_color (map_marker m) = ''green'' \<and> circle_radius (map_circle m) = 1000"
    using map_fallback [of "''Low''" 0 0 0 0 "[]" m] by simp
  with m show ?thesis using map_fallback [of "''Severe''" 0 0 0 0 "[]"] by simp
qed

subsection \<open>Loading failures\<close>

lemma static_section_shown: "StStatic s \<in> set static_content"
  by (cases s) (simp_all add: static_content_def)

lemma main_load_failed:
  "load_models clf_load reg_load = load_failed e \<Longrightarrow>
   main np_expm1 clf_load reg_load inp
     = fst (load_failed e) @ [StInfo ''## Installation Instructions''] @ static_content"
  by (simp add: main_def load_failed_def)

lemma main_ends_with_static_content:
  "\<exists>evs. main np_expm1 clf_load reg_load inp = evs @ static_content"
  by (cases clf_load; cases reg_load) (simp_all add: main_def load_models_def load_failed_def)

text \<open>
  Claim C7. When either model fails to load, \<^verbatim>\<open>main\<close> writes the error message of the
  failure, the installation notes and then the seven static sections, and returns; the
  static sections are written whatever the outcome of loading.
\<close>

theorem load_failure_keeps_static_content:
  "main np_expm1 (Inl e) reg_load inp
     = fst (load_failed e) @ [StInfo ''## Installation Instructions''] @ static_content
   \<and> main np_expm1 (Inr clf) (Inl e) inp
     = fst (load_failed e) @ [StInfo ''## Installation Instructions''] @ static_content
   \<and> hd (fst (load_failed e))
     = StError (cross_mark @ '' Model loading failed: '' @ str_of_error e)
   \<and> static_content = [StStatic EmergencyContacts, StStatic SafetyGuidelines,
        StStatic EmergencyKit, StStatic AffectedGuidelines, StStatic HelpOthers,
        StStatic DonationSection, StStatic AwarenessFacts]
   \<and> StStatic s \<in> set (main np_expm1 clf_load reg_load inp)"
proof (intro conjI)
  show "main np_expm1 (Inl e) reg_load inp
     = fst (load_failed e) @ [StInfo ''## Installation Instructions''] @ static_content"
    by (rule main_load_failed) (simp add: load_models_def)
  show "main np_expm1 (Inr clf) (Inl e) inp
     = fst (load_failed e) @ [StInfo ''## Installation Instructions''] @ static_content"
    by (rule main_load_failed) (simp add: load_models_def)
  show "hd (fst (load_failed e))
     = StError (cross_mark @ '' Model loading failed: '' @ str_of_error e)"
    by (simp add: load_failed_def)
  show "static_content = [StStatic EmergencyContacts, StStatic SafetyGuidelines,
        StStatic EmergencyKit, StStatic AffectedGuidelines, StStatic HelpOthers,
        StStatic DonationSection, StStatic AwarenessFacts]"
    by (simp add: static_content_def)
  obtain evs where "main np_expm1 clf_load reg_load inp = evs @ static_content"
    using main_ends_with_static_content by blast
  then show "StStatic s \<in> set (main np_expm1 clf_load reg_load inp)"
    using static_section_shown [of s] by simp
qed

theorem load_failure_keeps_static_content_witness:
  "main expm1_rounded
      (Inl (OtherException ''No module named 'lightgbm' '')) (Inl (OtherException ''unused''))
      \<lparr> ui_value = default_value, ui_lat = 0, ui_lon = 0, ui_city_name = [],
        ui_predict_pressed = True \<rparr>
   = [StError (cross_mark @ '' Model loading failed: No module named 'lightgbm' ''),
      StInfo ''Missing LightGBM package. Install it with:'',
      StInfo ''## Installation Instructions'',
      StStatic EmergencyContacts, StStatic SafetyGuidelines,
      StStatic EmergencyKit, StStatic AffectedGuidelines, StStatic HelpOthers,
      StStatic DonationSection, StStatic AwarenessFacts]"
  using load_failure_keeps_static_content
    [of expm1_rounded "OtherException ''No module named 'lightgbm' ''"
        "Inl (OtherException ''unused'')"]
  by (simp add: load_failed_def ascii_lower_def)

subsection \<open>Currency conversion\<close>

text \<open>
  Claim C8 as stated fails on floats: with a = 0.01 and b = 0.02 the two sides are the
  floats 2.4899999999999998 and 2.49.
\<close>

theorem conversion_not_linear_counterexample:
  "convert_usd_to_inr (fadd (fl (1 / 100)) (fl (2 / 100)))
     \<noteq> fadd (convert_usd_to_inr (fl (1 / 100))) (convert_usd_to_inr (fl (2 / 100)))"
  by code_simp

lemma conversion_values:
  "convert_usd_to_inr (fadd (fl (1 / 100)) (fl (2 / 100))) = 5606981536076267 / 2 ^ 51"
  "fadd (convert_usd_to_inr (fl (1 / 100))) (convert_usd_to_inr (fl (2 / 100)))
     = 1401745384019067 / 2 ^ 49"
  by code_simp+

lemma fl_abs_le: "\<bar>fl x\<bar> \<le> \<bar>x\<bar> + \<bar>x\<bar> / 2 ^ 53"
proof -
  have "\<bar>fl x\<bar> \<le> \<bar>x\<bar> + \<bar>fl x - x\<bar>" by linarith
  with fl_rel_err [of x] show ?thesis by linarith
qed

lemma conversion_exact_on_integers:
  assumes "\<bar>m\<bar> + \<bar>n\<bar> \<le> 100000000000000"
  shows "convert_usd_to_inr (fadd (of_int m) (of_int n))
     = fadd (convert_usd_to_inr (of_int m)) (convert_usd_to_inr (of_int n))"
proof -
  have b: "\<bar>m + n\<bar> < 2 ^ 53" "\<bar>(m + n) * 83\<bar> < 2 ^ 53" "\<bar>m * 83\<bar> < 2 ^ 53" "\<bar>n * 83\<bar> < 2 ^ 53"
    "\<bar>m * 83 + n * 83\<bar> < 2 ^ 53"
    using assms by (simp_all add: abs_mult)
  have s: "fadd (of_int m) (of_int n) = of_int (m + n)"
    unfolding fadd_def using fl_of_int [OF b(1)] by simp
  have l: "convert_usd_to_inr (of_int (m + n)) = of_int ((m + n) * 83)"
    unfolding convert_usd_to_inr_def fmul_def USD_TO_INR_def using fl_of_int [OF b(2)] by simp
  have cm: "convert_usd_to_inr (of_int m) = of_int (m * 83)"
    unfolding convert_usd_to_inr_def fmul_def USD_TO_INR_def using fl_of_int [OF b(3)] by simp
  have cn: "convert_usd_to_inr (of_int n) = of_int (n * 83)"
    unfolding convert_usd_to_inr_def fmul_def USD_TO_INR_def using fl_of_int [OF b(4)] by simp
  have r: "fadd (of_int (m * 83)) (of_int (n * 83)) = of_int (m * 83 + n * 83)"
    unfolding fadd_def using fl_of_int [OF b(5)] by simp
  show ?thesis unfolding s l cm cn r by (simp add: algebra_simps)
qed

lemma abs_sum3: "\<bar>x + y + z\<bar> \<le> \<bar>x\<bar> + \<bar>y\<bar> + \<bar>z\<bar>" for x y z :: real
  by linarith

lemma abs_sum5: "\<bar>x + y - z - v - w\<bar> \<le> \<bar>x\<bar> + \<bar>y\<bar> + \<bar>z\<bar> + \<bar>v\<bar> + \<bar>w\<bar>"
  for x y z v w :: real
  by linarith

lemma le_swap3: "x \<le> p + q + 83 * t \<Longrightarrow> t \<le> u \<Longrightarrow> x \<le> 83 * u + p + q"
  for x p q t u :: real
  by simp

lemma rounding_budget:
  fixes A T S D1 D2 D3 D4 D5 C X :: real
  assumes "X \<le> D2 + 83 * D1 + D5 + D3 + D4"
    and "D2 \<le> 83 * S / 2 ^ 53" and "S \<le> T + T / 2 ^ 53" and "D1 \<le> T / 2 ^ 53"
    and "T \<le> A" and "D5 \<le> C / 2 ^ 53" and "C \<le> 83 * A + D3 + D4"
    and "D3 + D4 \<le> 83 * A / 2 ^ 53" and "0 \<le> A"
  shows "X \<le> 415 * A / 2 ^ 53"
  using assms by simp

lemma conversion_error_bound:
  "\<bar>convert_usd_to_inr (fadd a b) - fadd (convert_usd_to_inr a) (convert_usd_to_inr b)\<bar>
     \<le> 415 * (\<bar>a\<bar> + \<bar>b\<bar>) / 2 ^ 53"
proof -
  define s where "s = fl (a + b)"
  define L where "L = fl (s * 83)"
  define ca where "ca = fl (a * 83)"
  define cb where "cb = fl (b * 83)"
  define R where "R = fl (ca + cb)"
  have e: "convert_usd_to_inr (fadd a b) = L"
    "fadd (convert_usd_to_inr a) (convert_usd_to_inr b) = R"
    by (simp_all add: convert_usd_to_inr_def fadd_def fmul_def USD_TO_INR_def
          s_def L_def ca_def cb_def R_def)
  have t: "\<bar>a + b\<bar> \<le> \<bar>a\<bar> + \<bar>b\<bar>" by (rule abs_triangle_ineq)
  have s1: "\<bar>s - (a + b)\<bar> \<le> \<bar>a + b\<bar> / 2 ^ 53" unfolding s_def by (rule fl_rel_err)
  have s2: "\<bar>s\<bar> \<le> \<bar>a + b\<bar> + \<bar>a + b\<bar> / 2 ^ 53" unfolding s_def by (rule fl_abs_le)
  have "\<bar>L - s * 83\<bar> \<le> \<bar>s * 83\<bar> / 2 ^ 53" unfolding L_def by (rule fl_rel_err)
  then have l1: "\<bar>L - s * 83\<bar> \<le> 83 * \<bar>s\<bar> / 2 ^ 53" by (simp add: abs_mult)
  have "\<bar>ca - a * 83\<bar> \<le> \<bar>a * 83\<bar> / 2 ^ 53" unfolding ca_def by (rule fl_rel_err)
  then have a1: "\<bar>ca - a * 83\<bar> \<le> 83 * \<bar>a\<bar> / 2 ^ 53" by (simp add: abs_mult)
  have "\<bar>cb - b * 83\<bar> \<le> \<bar>b * 83\<bar> / 2 ^ 53" unfolding cb_def by (rule fl_rel_err)
  then have b1: "\<bar>cb - b * 83\<bar> \<le> 83 * \<bar>b\<bar> / 2 ^ 53" by (simp add: abs_mult)
  have ab1: "\<bar>ca - a * 83\<bar> + \<bar>cb - b * 83\<bar> \<le> 83 * (\<bar>a\<bar> + \<bar>b\<bar>) / 2 ^ 53"
    using a1 b1 by (simp add: algebra_simps add_divide_distrib)
  have r1: "\<bar>R - (ca + cb)\<bar> \<le> \<bar>ca + cb\<bar> / 2 ^ 53" unfolding R_def by (rule fl_rel_err)
  have m1: "\<bar>83 * (a + b)\<bar> = 83 * \<bar>a + b\<bar>" by (simp only: abs_mult abs_numeral)
  have m2: "\<bar>83 * (s - (a + b))\<bar> = 83 * \<bar>s - (a + b)\<bar>" by (simp only: abs_mult abs_numeral)
  have "ca + cb = (ca - a * 83) + (cb - b * 83) + 83 * (a + b)" by (simp add: algebra_simps)
  then have "\<bar>ca + cb\<bar> = \<bar>(ca - a * 83) + (cb - b * 83) + 83 * (a + b)\<bar>" by (rule arg_cong)
  also have "\<dots> \<le> \<bar>ca - a * 83\<bar> + \<bar>cb - b * 83\<bar> + \<bar>83 * (a + b)\<bar>" by (rule abs_sum3)
  finally have c1: "\<bar>ca + cb\<bar> \<le> 83 * (\<bar>a\<bar> + \<bar>b\<bar>) + \<bar>ca - a * 83\<bar> + \<bar>cb - b * 83\<bar>"
    unfolding m1 by (rule le_swap3 [OF _ t])
  have "L - R = (L - s * 83) + 83 * (s - (a + b)) - (R - (ca + cb)) - (ca - a * 83) - (cb - b * 83)"
    by (simp add: algebra_simps)
  then have "\<bar>L - R\<bar>
      = \<bar>(L - s * 83) + 83 * (s - (a + b)) - (R - (ca + cb)) - (ca - a * 83) - (cb - b * 83)\<bar>"
    by (rule arg_cong)
  also have "\<dots> \<le> \<bar>L - s * 83\<bar> + \<bar>83 * (s - (a + b))\<bar> + \<bar>R - (ca + cb)\<bar>
      + \<bar>ca - a * 83\<bar> + \<bar>cb - b * 83\<bar>" by (rule abs_sum5)
  finally have x: "\<bar>L - R\<bar> \<le> \<bar>L - s * 83\<bar> + 83 * \<bar>s - (a + b)\<bar> + \<bar>R - (ca + cb)\<bar>
      + \<bar>ca - a * 83\<bar> + \<bar>cb - b * 83\<bar>" unfolding m2 .
  have "\<bar>L - R\<bar> \<le> 415 * (\<bar>a\<bar> + \<bar>b\<bar>) / 2 ^ 53"
    by (rule rounding_budget [OF x l1 s2 s1 t r1 c1 ab1]) simp
  then show ?thesis unfolding e .
qed

text \<open>
  Claim C8, amended. The conversion is the float product with 83.0; the exact products
  are linear, the float results agree up to a rounding error of at most
  415 (|a| + |b|) / 2^53, and they are equal for whole amounts with |a| + |b| at most 10^14.
\<close>

theorem conversion_linear_up_to_rounding:
  "convert_usd_to_inr a = fl (a * 83)
   \<and> (a + b) * USD_TO_INR = a * USD_TO_INR + b * USD_TO_INR
   \<and> \<bar>convert_usd_to_inr (fadd a b) - fadd (convert_usd_to_inr a) (convert_usd_to_inr b)\<bar>
       \<le> 415 * (\<bar>a\<bar> + \<bar>b\<bar>) / 2 ^ 53
   \<and> (\<bar>m\<bar> + \<bar>n\<bar> \<le> 100000000000000 \<longrightarrow>
       convert_usd_to_inr (fadd (of_int m) (of_int n))
         = fadd (convert_usd_to_inr (of_int m)) (convert_usd_to_inr (of_int n)))"
proof (intro conjI impI)
  show "convert_usd_to_inr a = fl (a * 83)"
    by (simp add: convert_usd_to_inr_def fmul_def USD_TO_INR_def)
  show "(a + b) * USD_TO_INR = a * USD_TO_INR + b * USD_TO_INR"
    by (rule distrib_right)
  show "\<bar>convert_usd_to_inr (fadd a b) - fadd (convert_usd_to_inr a) (convert_usd_to_inr b)\<bar>
       \<le> 415 * (\<bar>a\<bar> + \<bar>b\<bar>) / 2 ^ 53"
    by (rule conversion_error_bound)
  assume "\<bar>m\<bar> + \<bar>n\<bar> \<le> 100000000000000"
  then show "convert_usd_to_inr (fadd (of_int m) (of_int n))
         = fadd (convert_usd_to_inr (of_int m)) (convert_usd_to_inr (of_int n))"
    by (rule conversion_exact_on_integers)
qed

theorem conversion_linear_up_to_rounding_witness:
  "\<bar>1200 :: int\<bar> + \<bar>- 350\<bar> \<le> 100000000000000
   \<and> convert_usd_to_inr (fadd 1200 (- 350))
       = fadd (convert_usd_to_inr 1200) (convert_usd_to_inr (- 350))"
  using conversion_linear_up_to_rounding [of 0 0 1200 "- 350"] by simp

subsection \<open>Formatting amounts\<close>

lemma rhe_eqI:
  assumes "of_int n - 1 / 2 < x" "x < of_int n + 1 / 2"
  shows "rhe x = n"
proof (cases "of_int n \<le> x")
  case True
  then have "\<lfloor>x\<rfloor> = n" using assms(2) by (intro floor_unique) simp_all
  then show ?thesis using assms(2) by (simp add: rhe_def Let_def)
next
  case False
  then have "\<lfloor>x\<rfloor> = n - 1" using assms(1) by (intro floor_unique) simp_all
  then show ?thesis using assms(1) by (simp add: rhe_def Let_def)
qed

lemma rhe_nonneg: "0 \<le> x \<Longrightarrow> 0 \<le> rhe x"
proof -
  assume "0 \<le> x"
  then have "- 1 < real_of_int (rhe x)" using rhe_err [of x] by linarith
  then have "- 1 < rhe x" by linarith
  then show ?thesis by simp
qed

lemma fl_nonneg: "0 \<le> x \<Longrightarrow> 0 \<le> fl x"
proof -
  assume a: "0 \<le> x"
  have "x / 2 ^ 53 \<le> x" using a by (simp add: field_simps)
  then show ?thesis using fl_rel_err [of x] a by linarith
qed

lemma frac_digits_2: "frac_digits 2 m = [digit_char (m div 10 mod 10), digit_char (m mod 10)]"
  by (simp add: numeral_2_eq_2)

lemma frac_digits_2_mod: "frac_digits 2 (n mod 100) = [digit_char (n div 10 mod 10), digit_char (n mod 10)]"
proof -
  have "n mod 100 div 10 = n div 10 mod 10" using mod_mult2_eq [of n 10 10] by simp
  moreover have "n mod 100 mod 10 = n mod 10" by (simp add: mod_mod_cancel)
  ultimately show ?thesis by (simp add: frac_digits_2)
qed

lemma format_f_2:
  assumes "0 \<le> q"
  shows "\<exists>n::nat. format_f False 2 q
            = show_nat (n div 100) @ ''.'' @ [digit_char (n div 10 mod 10), digit_char (n mod 10)]
          \<and> \<bar>real n / 100 - q\<bar> \<le> 1 / 200"
proof -
  define n where "n = nat (rhe (q * 100))"
  have r: "0 \<le> rhe (q * 100)" using assms by (intro rhe_nonneg) simp
  then have n: "real n = of_int (rhe (q * 100))" by (simp add: n_def)
  have "\<bar>real n - q * 100\<bar> \<le> 1 / 2" unfolding n by (rule rhe_err)
  then have "\<bar>real n / 100 - q\<bar> \<le> 1 / 200" by (simp add: field_simps abs_le_iff)
  moreover have "format_f False 2 q
      = show_nat (n div 100) @ ''.'' @ [digit_char (n div 10 mod 10), digit_char (n mod 10)]"
    using assms r by (simp add: format_f_def Let_def n_def frac_digits_2_mod)
  ultimately show ?thesis by blast
qed

lemma format_f_0:
  "\<exists>n::nat. format_f True 0 a = (if a < 0 then ''-'' else []) @ show_grouped n
          \<and> \<bar>real n - \<bar>a\<bar>\<bar> \<le> 1 / 2"
proof -
  define n where "n = nat \<bar>rhe a\<bar>"
  have n: "real n = \<bar>of_int (rhe a)\<bar>" by (simp add: n_def)
  have "\<bar>\<bar>real_of_int (rhe a)\<bar> - \<bar>a\<bar>\<bar> \<le> \<bar>real_of_int (rhe a) - a\<bar>" by (rule abs_triangle_ineq3)
  then have "\<bar>real n - \<bar>a\<bar>\<bar> \<le> 1 / 2" unfolding n using rhe_err [of a] by linarith
  moreover have "format_f True 0 a = (if a < 0 then ''-'' else []) @ show_grouped n"
    by (simp add: format_f_def Let_def n_def)
  ultimately show ?thesis by blast
qed

lemma fdiv_err:
  assumes "0 \<le> a" "0 < c"
  shows "0 \<le> fdiv a c" "\<bar>fdiv a c - a / c\<bar> \<le> a / c / 2 ^ 53"
proof -
  have q: "0 \<le> a / c" using assms by simp
  show "0 \<le> fdiv a c" unfolding fdiv_def by (rule fl_nonneg [OF q])
  show "\<bar>fdiv a c - a / c\<bar> \<le> a / c / 2 ^ 53"
    unfolding fdiv_def using fl_rel_err [of "a / c"] q by simp
qed

lemma format_unit:
  assumes "0 \<le> a" "0 < c"
  shows "\<exists>n::nat. format_f False 2 (fdiv a c)
            = show_nat (n div 100) @ ''.'' @ [digit_char (n div 10 mod 10), digit_char (n mod 10)]
          \<and> \<bar>real n / 100 - a / c\<bar> \<le> 1 / 200 + a / c / 2 ^ 53"
proof -
  obtain n :: nat where n: "format_f False 2 (fdiv a c)
            = show_nat (n div 100) @ ''.'' @ [digit_char (n div 10 mod 10), digit_char (n mod 10)]"
    "\<bar>real n / 100 - fdiv a c\<bar> \<le> 1 / 200"
    using format_f_2 [OF fdiv_err(1) [OF assms]] by blast
  have "\<bar>real n / 100 - a / c\<bar> \<le> \<bar>real n / 100 - fdiv a c\<bar> + \<bar>fdiv a c - a / c\<bar>" by linarith
  with n(2) fdiv_err(2) [OF assms] have "\<bar>real n / 100 - a / c\<bar> \<le> 1 / 200 + a / c / 2 ^ 53"
    by linarith
  with n(1) show ?thesis by blast
qed

lemma digit_chars:
  "digit_char 0 = CHR ''0''" "digit_char 1 = CHR ''1''" "digit_char 2 = CHR ''2''"
  "digit_char 3 = CHR ''3''" "digit_char 4 = CHR ''4''" "digit_char 5 = CHR ''5''"
  "digit_char 6 = CHR ''6''" "digit_char 7 = CHR ''7''" "digit_char 8 = CHR ''8''"
  "digit_char 9 = CHR ''9''" "digit_char (Suc 0) = CHR ''1''"
  by code_simp+

lemma frac_digits_3:
  "frac_digits 3 m = [digit_char (m div 100 mod 10), digit_char (m div 10 mod 10), digit_char (m mod 10)]"
  by (simp add: numeral_3_eq_3 div_mult2_eq [symmetric])

lemmas fmt_eval = format_rupees_def format_f_def fdiv_def fmul_def fl_def ilog2_def compute_bitlen
  rhe_def Let_def show_nat.simps show_grouped.simps digit_chars frac_digits_2 frac_digits_3
  power_int_minus rupee_def

lemma boundary_values:
  "format_rupees 10000000 = rupee @ ''1.00 crore''"
  "format_rupees 9999999 = rupee @ ''100.00 lakh''"
  "format_rupees 100000 = rupee @ ''1.00 lakh''"
  "format_rupees 99999 = rupee @ ''99,999''"
  "format_rupees 50000 = rupee @ ''50,000''"
  "format_rupees 10150000 = rupee @ ''1.01 crore''"
  "format_rupees (- 3 / 10) = rupee @ ''-0''"
  "format_rupees (199999 / 2) = rupee @ ''100,000''"
  by (simp_all add: fmt_eval)

lemma digit_char_not_comma: "n < 10 \<Longrightarrow> digit_char n \<noteq> CHR '',''"
proof -
  assume "n < 10"
  then have "n \<in> {0, 1, 2, 3, 4, 5, 6, 7, 8, 9}" by auto
  then show ?thesis using digit_chars by auto
qed

lemma show_nat_no_comma: "CHR '','' \<notin> set (show_nat n)"
proof (induction n rule: show_nat.induct)
  case (1 n)
  show ?case
  proof (cases "n < 10")
    case True
    then show ?thesis using digit_char_not_comma [of n] by (simp add: show_nat.simps)
  next
    case False
    have "digit_char (n mod 10) \<noteq> CHR '',''" by (rule digit_char_not_comma) simp
    with False 1 show ?thesis by (simp add: show_nat.simps [of n])
  qed
qed

lemma show_nat_thousands:
  assumes "1000 \<le> n"
  shows "show_nat n = show_nat (n div 1000) @ frac_digits 3 (n mod 1000)"
proof -
  have g: "\<not> n < 10" "\<not> n div 10 < 10" "\<not> n div 100 < 10"
    using assms by (simp_all add: div_less_iff_less_mult)
  have a: "show_nat n = show_nat (n div 10) @ [digit_char (n mod 10)]"
    using g by (simp add: show_nat.simps [of n])
  have b: "show_nat (n div 10) = show_nat (n div 100) @ [digit_char (n div 10 mod 10)]"
    using g by (simp add: show_nat.simps [of "n div 10"] div_mult2_eq [symmetric])
  have c: "show_nat (n div 100) = show_nat (n div 1000) @ [digit_char (n div 100 mod 10)]"
    using g by (simp add: show_nat.simps [of "n div 100"] div_mult2_eq [symmetric])
  have d: "n mod 1000 div 100 = n div 100 mod 10" using mod_mult2_eq [of n 100 10] by simp
  have "n mod 1000 div 10 = n div 10 mod 100" using mod_mult2_eq [of n 10 100] by simp
  then have e: "n mod 1000 div 10 mod 10 = n div 10 mod 10" by (simp add: mod_mod_cancel)
  have f: "n mod 1000 mod 10 = n mod 10" by (simp add: mod_mod_cancel)
  show ?thesis unfolding a b c frac_digits_3 using d e f by simp
qed

lemma frac_digits_no_comma: "CHR '','' \<notin> set (frac_digits d m)"
proof (induction d arbitrary: m)
  case 0
  show ?case by simp
next
  case (Suc d)
  have "digit_char (m mod 10) \<noteq> CHR '',''" by (rule digit_char_not_comma) simp
  with Suc show ?case by simp
qed

lemma show_grouped_digits:
  "filter (\<lambda>c. c \<noteq> CHR '','') (show_grouped n) = show_nat n"
proof (induction n rule: show_grouped.induct)
  case (1 n)
  show ?case
  proof (cases "n < 1000")
    case True
    moreover have "\<forall>c\<in>set (show_nat n). c \<noteq> CHR '',''"
      using show_nat_no_comma [of n] by blast
    ultimately show ?thesis
      by (simp add: show_grouped.simps [of n] filter_id_conv)
  next
    case False
    then have "filter (\<lambda>c. c \<noteq> CHR '','') (show_grouped n)
        = show_nat (n div 1000) @ filter (\<lambda>c. c \<noteq> CHR '','') (frac_digits 3 (n mod 1000))"
      using 1 by (simp add: show_grouped.simps [of n])
    also have "filter (\<lambda>c. c \<noteq> CHR '','') (frac_digits 3 (n mod 1000)) = frac_digits 3 (n mod 1000)"
    proof -
      have "\<forall>c\<in>set (frac_digits 3 (n mod 1000)). c \<noteq> CHR '',''"
        using frac_digits_no_comma [of 3 "n mod 1000"] by blast
      then show ?thesis by (simp only: filter_id_conv)
    qed
    also have "show_nat (n div 1000) @ frac_digits 3 (n mod 1000) = show_nat n"
      using False by (simp add: show_nat_thousands)
    finally show ?thesis .
  qed
qed

text \<open>
  Claim C3. An amount of at least 10,000,000 is shown in crore, one of at least 100,000
  in lakh, each as a decimal with two digits after the point that is within 0.005 (and
  the rounding of the float division) of the quotient; a smaller amount is shown as its
  nearest integer with a comma between groups of three digits. The boundary values
  10,000,000 and 100,000 take the larger unit.
\<close>

theorem format_rupees_units:
  "(10000000 \<le> amount \<longrightarrow>
      (\<exists>n::nat. format_rupees amount
           = rupee @ show_nat (n div 100) @ ''.''
               @ [digit_char (n div 10 mod 10), digit_char (n mod 10)] @ '' crore''
         \<and> \<bar>real n / 100 - amount / 10000000\<bar> \<le> 1 / 200 + amount / 10000000 / 2 ^ 53))
   \<and> (100000 \<le> amount \<and> amount < 10000000 \<longrightarrow>
      (\<exists>n::nat. format_rupees amount
           = rupee @ show_nat (n div 100) @ ''.''
               @ [digit_char (n div 10 mod 10), digit_char (n mod 10)] @ '' lakh''
         \<and> \<bar>real n / 100 - amount / 100000\<bar> \<le> 1 / 200 + amount / 100000 / 2 ^ 53))
   \<and> (amount < 100000 \<longrightarrow>
      (\<exists>n::nat. format_rupees amount
           = rupee @ (if amount < 0 then ''-'' else []) @ show_grouped n
         \<and> filter (\<lambda>c. c \<noteq> CHR '','') (show_grouped n) = show_nat n
         \<and> \<bar>real n - \<bar>amount\<bar>\<bar> \<le> 1 / 2))
   \<and> format_rupees 10000000 = rupee @ ''1.00 crore''
   \<and> format_rupees 100000 = rupee @ ''1.00 lakh''
   \<and> format_rupees 9999999 = rupee @ ''100.00 lakh''
   \<and> format_rupees 50000 = rupee @ ''50,000''"
proof (intro conjI impI)
  assume a: "10000000 \<le> amount"
  then have "0 \<le> amount" by simp
  then obtain n :: nat where "format_f False 2 (fdiv amount 10000000)
            = show_nat (n div 100) @ ''.'' @ [digit_char (n div 10 mod 10), digit_char (n mod 10)]"
    "\<bar>real n / 100 - amount / 10000000\<bar> \<le> 1 / 200 + amount / 10000000 / 2 ^ 53"
    using format_unit [of amount 10000000] by auto
  then show "\<exists>n::nat. format_rupees amount
           = rupee @ show_nat (n div 100) @ ''.''
               @ [digit_char (n div 10 mod 10), digit_char (n mod 10)] @ '' crore''
         \<and> \<bar>real n / 100 - amount / 10000000\<bar> \<le> 1 / 200 + amount / 10000000 / 2 ^ 53"
    using a by (intro exI [of _ n]) (simp add: format_rupees_def)
next
  assume a: "100000 \<le> amount \<and> amount < 10000000"
  then have "0 \<le> amount" by simp
  then obtain n :: nat where "format_f False 2 (fdiv amount 100000)
            = show_nat (n div 100) @ ''.'' @ [digit_char (n div 10 mod 10), digit_char (n mod 10)]"
    "\<bar>real n / 100 - amount / 100000\<bar> \<le> 1 / 200 + amount / 100000 / 2 ^ 53"
    using format_unit [of amount 100000] by auto
  then show "\<exists>n::nat. format_rupees amount
           = rupee @ show_nat (n div 100) @ ''.''
               @ [digit_char (n div 10 mod 10), digit_char (n mod 10)] @ '' lakh''
         \<and> \<bar>real n / 100 - amount / 100000\<bar> \<le> 1 / 200 + amount / 100000 / 2 ^ 53"
    using a by (intro exI [of _ n]) (simp add: format_rupees_def)
next
  assume a: "amount < 100000"
  obtain n :: nat where "format_f True 0 amount = (if amount < 0 then ''-'' else []) @ show_grouped n"
    "\<bar>real n - \<bar>amount\<bar>\<bar> \<le> 1 / 2"
    using format_f_0 [of amount] by auto
  then show "\<exists>n::nat. format_rupees amount
           = rupee @ (if amount < 0 then ''-'' else []) @ show_grouped n
         \<and> filter (\<lambda>c. c \<noteq> CHR '','') (show_grouped n) = show_nat n
         \<and> \<bar>real n - \<bar>amount\<bar>\<bar> \<le> 1 / 2"
    using a by (intro exI [of _ n]) (simp add: format_rupees_def show_grouped_digits)
qed (rule boundary_values)+

theorem format_rupees_units_witness:
  "(10000000 :: real) \<le> 10150000
   \<and> (\<exists>n::nat. rupee @ ''1.01 crore''
           = rupee @ show_nat (n div 100) @ ''.''
               @ [digit_char (n div 10 mod 10), digit_char (n mod 10)] @ '' crore''
         \<and> \<bar>real n / 100 - 10150000 / 10000000\<bar> \<le> 1 / 200 + 10150000 / 10000000 / 2 ^ 53)"
  using format_rupees_units [of 10150000] boundary_values(6) by simp

subsection \<open>The contract of \<^verbatim>\<open>np.expm1\<close>\<close>

text \<open>Rounding is monotone, odd and idempotent, so that the correctly rounded function
  meets the contract.\<close>

lemma rhe_mono_int: "of_int n \<le> x \<Longrightarrow> n \<le> rhe x"
proof -
  assume "of_int n \<le> x"
  then have "real_of_int n - 1 < of_int (rhe x)" using rhe_err [of x] by linarith
  then have "n - 1 < rhe x" by linarith
  then show ?thesis by simp
qed

lemma rhe_le_int: "x \<le> of_int n \<Longrightarrow> rhe x \<le> n"
proof -
  assume "x \<le> of_int n"
  then have "of_int (rhe x) < real_of_int n + 1" using rhe_err [of x] by linarith
  then have "rhe x < n + 1" by linarith
  then show ?thesis by simp
qed

lemma fl_minus: "fl (- x) = - fl x"
proof (cases "x = 0")
  case True
  then show ?thesis by (simp add: fl_def)
next
  case False
  have "rhe (- y) = - rhe y" for y
  proof -
    have "\<lfloor>- y\<rfloor> = - \<lceil>y\<rceil>" by (simp add: ceiling_def)
    show ?thesis
    proof (cases "y = of_int \<lfloor>y\<rfloor>")
      case True
      then obtain k where "y = of_int k" by blast
      then show ?thesis using rhe_of_int [of k] rhe_of_int [of "- k"] by simp
    next
      case False
      then have c: "\<lceil>y\<rceil> = \<lfloor>y\<rfloor> + 1" by (metis ceiling_altdef)
      have f: "\<lfloor>- y\<rfloor> = - \<lfloor>y\<rfloor> - 1" using c by (simp add: ceiling_def)
      have lt: "of_int \<lfloor>y\<rfloor> < y" using False by (metis of_int_floor_le order_le_neq_trans)
      show ?thesis unfolding rhe_def Let_def f using lt by (auto simp: algebra_simps)
    qed
  qed
  then show ?thesis using False by (simp add: fl_def Let_def)
qed

lemma fl_fl_pos:
  assumes "0 < x"
  shows "fl (fl x) = fl x"
proof -
  define k where "k = ilog2 x"
  define q :: real where "q = 2 powi (k - 52)"
  define N where "N = rhe (x / q)"
  have q0: "0 < q" by (simp add: q_def)
  have qk: "(2::real) powi k = q * 2 ^ 52" "(2::real) powi (k + 1) = q * 2 ^ 53"
    "(2::real) powi (k + 2) = q * 2 ^ 54"
    unfolding q_def by (simp_all add: power_int_diff power_int_add)
  have lo: "q * 2 ^ 52 \<le> x" using ilog2_lower [OF assms] unfolding k_def [symmetric] qk .
  have hi: "x < q * 2 ^ 53" using ilog2_upper [OF assms] unfolding k_def [symmetric] qk .
  have "real_of_int (2 ^ 52) \<le> x / q" using lo q0 by (simp add: pos_le_divide_eq mult.commute)
  then have N1: "2 ^ 52 \<le> N" unfolding N_def by (rule rhe_mono_int)
  have "x / q \<le> real_of_int (2 ^ 53)" using hi q0 by (simp add: pos_divide_le_eq mult.commute)
  then have N2: "N \<le> 2 ^ 53" unfolding N_def by (rule rhe_le_int)
  have x0: "x \<noteq> 0" using assms by simp
  have f: "fl x = of_int N * q"
    using fl_unfold [OF x0] assms by (simp add: N_def q_def k_def)
  have N1r: "(2::real) ^ 52 \<le> of_int N" using N1 by (metis of_int_le_iff of_int_numeral of_int_power)
  have f0: "0 < fl x" unfolding f using q0 N1r by (intro mult_pos_pos) simp_all
  show ?thesis
  proof (cases "N = 2 ^ 53")
    case True
    then have fx: "fl x = q * 2 ^ 53" unfolding f by simp
    have "ilog2 (fl x) = k + 1"
    proof (rule ilog2_unique)
      show "2 powi (k + 1) \<le> fl x" unfolding qk fx by simp
      have "q * 2 ^ 53 < q * 2 ^ 54" using q0 by simp
      moreover have "k + 1 + 1 = k + 2" by simp
      ultimately show "fl x < 2 powi (k + 1 + 1)" unfolding fx by (simp only: qk)
    qed
    then have e: "ilog2 \<bar>fl x\<bar> - 52 = k - 52 + 1" using f0 by simp
    have "q * 2 ^ 53 = of_int (2 ^ 52) * 2 powi (k - 52 + 1)"
      using power_int_add [of "2::real" "k - 52" 1] by (simp add: q_def)
    then have g: "fl x = of_int (2 ^ 52) * 2 powi (k - 52 + 1)" by (simp only: fx)
    have h: "fl x = of_int (2 ^ 52) * 2 powi (ilog2 \<bar>fl x\<bar> - 52)" by (subst e) (rule g)
    have nz: "fl x \<noteq> 0" using f0 by simp
    show ?thesis by (rule fl_exactI [OF nz h])
  next
    case False
    with N2 have "N < 2 ^ 53" by simp
    then have "of_int N < (2::real) ^ 53" by (metis of_int_less_iff of_int_numeral of_int_power)
    then have fh: "fl x < q * 2 ^ 53" unfolding f using q0 by (simp add: mult.commute)
    have fl': "q * 2 ^ 52 \<le> fl x" unfolding f using q0 N1r by (simp add: mult.commute)
    have "ilog2 (fl x) = k"
      by (rule ilog2_unique) (simp_all only: qk fl' fh)
    then have e: "ilog2 \<bar>fl x\<bar> - 52 = k - 52" using f0 by simp
    have g: "fl x = of_int N * 2 powi (k - 52)" unfolding f q_def ..
    have h: "fl x = of_int N * 2 powi (ilog2 \<bar>fl x\<bar> - 52)" by (subst e) (rule g)
    have nz: "fl x \<noteq> 0" using f0 by simp
    show ?thesis by (rule fl_exactI [OF nz h])
  qed
qed

lemma fl_fl: "fl (fl x) = fl x"
proof (cases "0 < x")
  case True
  then show ?thesis by (rule fl_fl_pos)
next
  case False
  show ?thesis
  proof (cases "x = 0")
    case True
    then show ?thesis by (simp add: fl_def)
  next
    case False
    with \<open>\<not> 0 < x\<close> have "0 < - x" by simp
    then have "fl (fl (- x)) = fl (- x)" by (rule fl_fl_pos)
    then show ?thesis by (simp add: fl_minus)
  qed
qed

lemma is_float_fl: "is_float (fl x)"
  by (simp add: is_float_def fl_fl)

lemma expm1_rounded_accurate: "expm1_accurate expm1_rounded"
proof -
  have "\<bar>fl t - t\<bar> \<le> \<bar>t\<bar> / 2 ^ 50" for t
  proof -
    have "\<bar>t\<bar> / 2 ^ 53 \<le> \<bar>t\<bar> / 2 ^ 50" by (intro divide_left_mono) simp_all
    with fl_rel_err [of t] show ?thesis by linarith
  qed
  then show ?thesis by (simp add: expm1_accurate_def expm1_rounded_def is_float_fl)
qed

subsection \<open>The damage estimate\<close>

lemma accurate_err:
  assumes "expm1_accurate f" "y \<le> 709"
  shows "\<bar>f y - (exp y - 1)\<bar> \<le> \<bar>exp y - 1\<bar> / 2 ^ 50"
  using assms by (simp add: expm1_accurate_def)

lemma accurate_sign:
  assumes "expm1_accurate f" "y \<le> 709"
  shows "0 \<le> f y \<longleftrightarrow> 0 \<le> y"
proof -
  define t where "t = exp y - 1"
  have e: "\<bar>f y - t\<bar> \<le> \<bar>t\<bar> / 2 ^ 50" unfolding t_def by (rule accurate_err [OF assms])
  show ?thesis
  proof (cases "0 \<le> y")
    case True
    then have t0: "0 \<le> t" by (simp add: t_def)
    then have "t / 2 ^ 50 \<le> t" by (simp add: field_simps)
    with e t0 have "0 \<le> f y" by linarith
    with True show ?thesis by simp
  next
    case False
    then have t0: "t < 0" by (simp add: t_def)
    then have "- t / 2 ^ 50 < - t" by (simp add: field_simps)
    with e t0 have "f y < 0" by linarith
    with False show ?thesis by simp
  qed
qed

lemma order_budget:
  fixes a b s t E1 E2 :: real
  assumes "\<bar>a - s\<bar> \<le> E1" "\<bar>b - t\<bar> \<le> E2"
  shows "(t - s) - (E1 + E2) \<le> b - a"
  using assms by linarith

lemma accurate_order:
  assumes "expm1_accurate f" "y1 \<le> 709" "y2 \<le> 709"
  shows "f y2 - f y1 \<ge> (exp y2 - exp y1) - (\<bar>exp y1 - 1\<bar> + \<bar>exp y2 - 1\<bar>) / 2 ^ 50"
proof -
  have "(exp y2 - 1 - (exp y1 - 1)) - (\<bar>exp y1 - 1\<bar> / 2 ^ 50 + \<bar>exp y2 - 1\<bar> / 2 ^ 50)
      \<le> f y2 - f y1"
    by (rule order_budget [OF accurate_err [OF assms(1,2)] accurate_err [OF assms(1,3)]])
  moreover have "exp y2 - 1 - (exp y1 - 1) = exp y2 - exp y1" by simp
  moreover have "\<bar>exp y1 - 1\<bar> / 2 ^ 50 + \<bar>exp y2 - 1\<bar> / 2 ^ 50
      = (\<bar>exp y1 - 1\<bar> + \<bar>exp y2 - 1\<bar>) / 2 ^ 50" by (simp only: add_divide_distrib)
  ultimately show ?thesis by (simp only:)
qed

lemma exp_46: "(2::real) ^ 54 < exp 46"
proof -
  have "(5 / 2 :: real) \<le> exp 1" using exp_lower_Taylor_quadratic [of "1::real"] by simp
  then have "(5 / 2 :: real) ^ 46 \<le> exp 1 ^ 46" by (intro power_mono) simp_all
  moreover have "exp (1::real) ^ 46 = exp 46" using exp_of_nat_mult [of 46 "1::real"] by simp
  moreover have "(2::real) ^ 54 < (5 / 2) ^ 46" by (simp add: power_divide)
  ultimately show ?thesis by linarith
qed

lemma expm1_rounded_saturates:
  assumes "y \<le> - 46"
  shows "expm1_rounded y = - 1"
proof -
  define x where "x = exp y - 1"
  have "exp y \<le> exp (- 46)" using assms by simp
  also have "exp (- 46 :: real) = 1 / exp 46" by (simp add: exp_minus field_simps)
  also have "\<dots> < 1 / 2 ^ 54" using exp_46 by (intro divide_strict_left_mono) simp_all
  finally have u: "exp y < 1 / 2 ^ 54" .
  have l: "0 < exp y" by simp
  have x1: "- 1 < x" "x < - 1 + 1 / 2 ^ 54" using u l by (simp_all add: x_def)
  have "ilog2 \<bar>x\<bar> = - 1" using x1 by (intro ilog2_unique) (simp_all add: power_int_minus)
  then have f: "fl x = of_int (rhe (x / 2 powi (- 53))) * 2 powi (- 53)"
    using fl_unfold [of x] x1 by simp
  have "x / 2 powi (- 53) = x * 2 ^ 53" by (simp add: power_int_minus)
  moreover have "rhe (x * 2 ^ 53) = - (2 ^ 53)"
    using x1 by (intro rhe_eqI) (simp_all add: field_simps)
  ultimately have "fl x = - 1" unfolding f by (simp add: power_int_minus)
  then show ?thesis by (simp add: expm1_rounded_def x_def)
qed

text \<open>
  Claim C5 as stated fails. The regressor output -1 gives a negative damage, for every
  \<^verbatim>\<open>np.expm1\<close> that meets the contract; and with the correctly rounded \<^verbatim>\<open>np.expm1\<close> the
  outputs -47 and -46 give the same damage, the float -1.0, so that the damage is not
  strictly increasing.
\<close>

theorem damage_sign_counterexample:
  "expm1_accurate expm1_rounded
   \<and> pred_damage_usd expm1_rounded (- 1) < 0
   \<and> \<not> (\<exists>f. expm1_accurate f \<and> 0 \<le> pred_damage_usd f (- 1))
   \<and> (- 47 :: real) < - 46
   \<and> pred_damage_usd expm1_rounded (- 47) = pred_damage_usd expm1_rounded (- 46)"
proof -
  have a: "\<not> 0 \<le> f (- 1)" if "expm1_accurate f" for f
    using accurate_sign [OF that, of "- 1"] by simp
  have "expm1_rounded (- 47) = expm1_rounded (- 46)"
    using expm1_rounded_saturates [of "- 47"] expm1_rounded_saturates [of "- 46"] by simp
  moreover have "expm1_rounded (- 1) < 0"
    using a [OF expm1_rounded_accurate] by simp
  moreover have "\<not> (\<exists>f. expm1_accurate f \<and> 0 \<le> f (- 1))" using a by blast
  ultimately show ?thesis
    using expm1_rounded_accurate by (simp add: pred_damage_usd_def)
qed

text \<open>
  Claim C5, amended. For a regressor output \<open>y\<close> up to 709, where \<^verbatim>\<open>np.expm1\<close> does not
  overflow, the damage is non-negative exactly when \<open>y\<close> is; it is increasing up to the
  accuracy of \<^verbatim>\<open>np.expm1\<close>: for \<open>y1 < y2\<close> the damage at \<open>y1\<close> exceeds the damage at \<open>y2\<close> by
  at most \<open>(|exp y1 - 1| + |exp y2 - 1|) / 2^50\<close>, and it is strictly smaller when the exact
  values differ by more than that.
\<close>

theorem damage_sign_and_order:
  "(expm1_accurate np_expm1 \<and> y \<le> 709 \<longrightarrow>
      (0 \<le> pred_damage_usd np_expm1 y \<longleftrightarrow> 0 \<le> y))
   \<and> (expm1_accurate np_expm1 \<and> y1 < y2 \<and> y2 \<le> 709 \<longrightarrow>
        pred_damage_usd np_expm1 y1
          \<le> pred_damage_usd np_expm1 y2 + (\<bar>exp y1 - 1\<bar> + \<bar>exp y2 - 1\<bar>) / 2 ^ 50)
   \<and> (expm1_accurate np_expm1 \<and> y1 < y2 \<and> y2 \<le> 709
        \<and> (\<bar>exp y1 - 1\<bar> + \<bar>exp y2 - 1\<bar>) / 2 ^ 50 < exp y2 - exp y1 \<longrightarrow>
        pred_damage_usd np_expm1 y1 < pred_damage_usd np_expm1 y2)"
proof (intro conjI impI)
  assume "expm1_accurate np_expm1 \<and> y \<le> 709"
  then show "0 \<le> pred_damage_usd np_expm1 y \<longleftrightarrow> 0 \<le> y"
    using accurate_sign [of np_expm1 y] by (simp add: pred_damage_usd_def)
next
  assume a: "expm1_accurate np_expm1 \<and> y1 < y2 \<and> y2 \<le> 709"
  then have "exp y1 < exp y2" by simp
  moreover have "np_expm1 y2 - np_expm1 y1
      \<ge> (exp y2 - exp y1) - (\<bar>exp y1 - 1\<bar> + \<bar>exp y2 - 1\<bar>) / 2 ^ 50"
    using a by (intro accurate_order) simp_all
  ultimately show "pred_damage_usd np_expm1 y1
          \<le> pred_damage_usd np_expm1 y2 + (\<bar>exp y1 - 1\<bar> + \<bar>exp y2 - 1\<bar>) / 2 ^ 50"
    unfolding pred_damage_usd_def by linarith
next
  assume a: "expm1_accurate np_expm1 \<and> y1 < y2 \<and> y2 \<le> 709
        \<and> (\<bar>exp y1 - 1\<bar> + \<bar>exp y2 - 1\<bar>) / 2 ^ 50 < exp y2 - exp y1"
  have "np_expm1 y2 - np_expm1 y1
      \<ge> (exp y2 - exp y1) - (\<bar>exp y1 - 1\<bar> + \<bar>exp y2 - 1\<bar>) / 2 ^ 50"
    using a by (intro accurate_order) simp_all
  with a show "pred_damage_usd np_expm1 y1 < pred_damage_usd np_expm1 y2"
    unfolding pred_damage_usd_def by linarith
qed

theorem damage_sign_and_order_witness:
  "expm1_accurate expm1_rounded
   \<and> (0::real) < 1 \<and> (1::real) \<le> 709
   \<and> (\<bar>exp 0 - 1\<bar> + \<bar>exp 1 - 1\<bar>) / 2 ^ 50 < exp 1 - exp (0::real)
   \<and> pred_damage_usd expm1_rounded 0 < pred_damage_usd expm1_rounded 1
   \<and> 0 \<le> pred_damage_usd expm1_rounded 1"
proof -
  have e: "(1::real) < exp 1" by simp
  then have "(exp 1 - 1) / 2 ^ 50 < exp 1 - (1::real)" by (simp add: field_simps)
  then have g: "(\<bar>exp 0 - 1\<bar> + \<bar>exp 1 - 1\<bar>) / 2 ^ 50 < exp 1 - exp (0::real)"
    using e by simp
  show ?thesis
    using damage_sign_and_order [of expm1_rounded 1 0 1] expm1_rounded_accurate g
    by simp
qed

subsection \<open>The damage shown\<close>

lemma taylor_sum_23_20:
  "(\<Sum>m<12. (23 / 20 :: real) ^ m / fact m) = 25818102630134185208707 / 8174960640000000000000"
  by (simp add: lessThan_nat_numeral lessThan_Suc fact_numeral power_divide)

lemma exp_23_20_bounds:
  "315819 / 100000 \<le> exp (23 / 20 :: real)" "exp (23 / 20 :: real) \<le> 315820 / 100000"
proof -
  obtain t :: real where t: "\<bar>t\<bar> \<le> \<bar>23 / 20\<bar>"
    and e: "exp (23 / 20) = (\<Sum>m<12. (23 / 20 :: real) ^ m / fact m) + (exp t / fact 12) * (23 / 20) ^ 12"
    using Maclaurin_exp_le [of "23 / 20" 12] by blast
  have "exp t \<le> exp 2" using t by simp
  also have "exp (2::real) = exp 1 * exp 1" by (simp flip: exp_add)
  also have "\<dots> \<le> 3 * 3" by (intro mult_mono exp_le) simp_all
  finally have u: "exp t \<le> 9" by simp
  have l: "0 \<le> exp t" by simp
  have k: "(23 / 20 :: real) ^ 12 / fact 12 = 21914624432020321 / 1961990553600000000000000"
    by (simp add: fact_numeral power_divide)
  have r: "(exp t / fact 12) * (23 / 20) ^ 12 = exp t * (21914624432020321 / 1961990553600000000000000)"
    unfolding k [symmetric] by simp
  define w where "w = exp t"
  have w: "0 \<le> w" "w \<le> 9" using l u by (simp_all add: w_def)
  have e': "exp (23 / 20 :: real) = 25818102630134185208707 / 8174960640000000000000 + w * (21914624432020321 / 1961990553600000000000000)"
    unfolding e taylor_sum_23_20 r w_def ..
  show "315819 / 100000 \<le> exp (23 / 20 :: real)"
    unfolding e' using w by linarith
  show "exp (23 / 20 :: real) \<le> 315820 / 100000"
    unfolding e' using w by linarith
qed

lemma exp_46_5_bounds:
  "989705 / 100 \<le> exp (46 / 5 :: real)" "exp (46 / 5 :: real) \<le> 989731 / 100"
proof -
  have e: "exp (46 / 5 :: real) = exp (23 / 20) ^ 8"
    using exp_of_nat_mult [of 8 "23 / 20 :: real"] by simp
  have "(989705 / 100 :: real) \<le> (315819 / 100000) ^ 8" by (simp add: power_divide)
  also have "(315819 / 100000 :: real) ^ 8 \<le> exp (23 / 20) ^ 8"
    by (intro power_mono exp_23_20_bounds) simp
  finally show "989705 / 100 \<le> exp (46 / 5 :: real)" unfolding e .
  have "exp (23 / 20 :: real) ^ 8 \<le> (315820 / 100000) ^ 8"
    by (intro power_mono exp_23_20_bounds) simp
  also have "\<dots> \<le> 989731 / 100" by (simp add: power_divide)
  finally show "exp (46 / 5 :: real) \<le> 989731 / 100" unfolding e .
qed

lemma fl_92: "fl (46 / 5) = 2589569785738035 / 2 ^ 48"
  by code_simp

lemma exp_near_92:
  fixes r :: real
  assumes "46 / 5 - 1 / 10 ^ 9 \<le> r" "r \<le> 46 / 5"
  shows "9896 \<le> exp r - 1" "exp r - 1 \<le> 989631 / 100"
proof -
  have "exp r \<le> exp (46 / 5)" using assms(2) by (simp only: exp_le_cancel_iff)
  with exp_46_5_bounds(2) show "exp r - 1 \<le> 989631 / 100" by linarith
  have "1 + (r - 46 / 5) \<le> exp (r - 46 / 5)" by (rule exp_ge_add_one_self)
  then have k: "1 - 1 / 10 ^ 9 \<le> exp (r - 46 / 5)" using assms(1) by linarith
  have "exp r = exp (46 / 5) * exp (r - 46 / 5)" by (simp flip: exp_add)
  moreover have "(989705 / 100) * (1 - 1 / 10 ^ 9) \<le> exp (46 / 5) * exp (r - 46 / 5)"
    using exp_46_5_bounds(1) k by (intro mult_mono) simp_all
  ultimately have "(989705 / 100) * (1 - 1 / 10 ^ 9) \<le> exp r" by (simp only:)
  moreover have "(9897 :: real) \<le> (989705 / 100) * (1 - 1 / 10 ^ 9)" by simp
  ultimately show "9896 \<le> exp r - 1" by linarith
qed

lemma format_lakh_821:
  assumes "820600 \<le> a" "a \<le> 821400"
  shows "format_rupees a = rupee @ ''8.21 lakh''"
proof -
  define q where "q = fdiv a 100000"
  have a0: "0 \<le> a" using assms(1) by simp
  have q0: "0 \<le> q" unfolding q_def by (rule fdiv_err(1) [OF a0]) simp
  have e: "\<bar>q - a / 100000\<bar> \<le> a / 100000 / 2 ^ 53"
    unfolding q_def by (rule fdiv_err(2) [OF a0]) simp
  have "a / 100000 / 2 ^ 53 \<le> 1 / 10000" using assms(2) by simp
  with e have "\<bar>q - a / 100000\<bar> \<le> 1 / 10000" by linarith
  then have "of_int 821 - 1 / 2 < q * 100" "q * 100 < of_int 821 + 1 / 2"
    using assms by (simp_all add: abs_le_iff field_simps)
  then have r: "rhe (q * 100) = 821" by (rule rhe_eqI)
  have "format_f False 2 q = ''8.21''"
    using q0 r by (simp add: format_f_def Let_def show_nat.simps frac_digits_2 digit_chars)
  then show ?thesis using assms by (simp add: format_rupees_def q_def)
qed

lemma damage_near_92:
  assumes "expm1_accurate np_expm1" "46 / 5 - 1 / 10 ^ 9 \<le> r" "r \<le> 46 / 5"
  shows "format_rupees (pred_damage_inr np_expm1 r) = rupee @ ''8.21 lakh''"
proof -
  define t where "t = exp r - 1"
  define u where "u = np_expm1 r"
  have t: "9896 \<le> t" "t \<le> 989631 / 100"
    unfolding t_def using exp_near_92 [OF assms(2,3)] by simp_all
  have "r \<le> 709" using assms(3) by simp
  then have "\<bar>u - t\<bar> \<le> \<bar>t\<bar> / 2 ^ 50"
    unfolding u_def t_def by (rule accurate_err [OF assms(1)])
  moreover have "\<bar>t\<bar> / 2 ^ 50 \<le> 1 / 100" using t by simp
  ultimately have "\<bar>u - t\<bar> \<le> 1 / 100" by linarith
  with t have u: "9895 \<le> u" "u \<le> 989633 / 100" by linarith+
  have "\<bar>fl (u * 83) - u * 83\<bar> \<le> \<bar>u * 83\<bar> / 2 ^ 53" by (rule fl_rel_err)
  moreover have "\<bar>u * 83\<bar> / 2 ^ 53 \<le> 1" using u by simp
  ultimately have "\<bar>fl (u * 83) - u * 83\<bar> \<le> 1" by linarith
  then have "820600 \<le> fl (u * 83)" "fl (u * 83) \<le> 821400" using u by (simp_all add: abs_le_iff)
  then have "format_rupees (fl (u * 83)) = rupee @ ''8.21 lakh''" by (rule format_lakh_821)
  then show ?thesis
    by (simp add: pred_damage_inr_def pred_damage_usd_def convert_usd_to_inr_def fmul_def
        USD_TO_INR_def u_def)
qed

lemma damage_92:
  assumes "expm1_accurate np_expm1"
  shows "format_rupees (pred_damage_inr np_expm1 (fl (92 / 10))) = rupee @ ''8.21 lakh''"
    and "format_rupees (pred_damage_inr np_expm1 (92 / 10)) = rupee @ ''8.21 lakh''"
proof -
  have "format_rupees (pred_damage_inr np_expm1 (fl (46 / 5))) = rupee @ ''8.21 lakh''"
    by (rule damage_near_92 [OF assms]) (simp_all add: fl_92)
  then show "format_rupees (pred_damage_inr np_expm1 (fl (92 / 10))) = rupee @ ''8.21 lakh''"
    by simp
  have "format_rupees (pred_damage_inr np_expm1 (46 / 5)) = rupee @ ''8.21 lakh''"
    by (rule damage_near_92 [OF assms]) simp_all
  then show "format_rupees (pred_damage_inr np_expm1 (92 / 10)) = rupee @ ''8.21 lakh''"
    by simp
qed



lemma predict_block_shows:
  assumes "predict_proba clf (X_input (features inp)) = Inr probas"
    and "predict clf (X_input (features inp)) = Inr pred_idx"
    and "RISK_LABELS pred_idx = Some lbl"
    and "reg_predict reg (X_input (features inp)) = Inr pred_log"
    and "2 < length probas"
  shows "StMetric ''Estimated Damage'' (format_rupees (pred_damage_inr np_expm1 pred_log))
           \<in> set (fst (predict_block np_expm1 clf reg inp))"
    and "risk_assessment lbl (probas ! 2) \<in> set (fst (predict_block np_expm1 clf reg inp))"
  using assms
  by (simp_all add: predict_block_def Let_def split: sum.split)

text \<open>
  Claim C2. The damage in rupees is the float product of \<^verbatim>\<open>np.expm1\<close> of the regressor's
  output with 83.0, the metric "Estimated Damage" shows it formatted by
  \<^verbatim>\<open>format_rupees\<close>, and for the output 9.2, the float as well as the real number, the
  string shown is the rupee sign followed by "8.21 lakh", for every \<^verbatim>\<open>np.expm1\<close> that meets
  the contract.
\<close>

theorem damage_shown:
  "pred_damage_inr np_expm1 pred_log = fmul (np_expm1 pred_log) 83
   \<and> (predict_proba clf (X_input (features inp)) = Inr probas
      \<and> predict clf (X_input (features inp)) = Inr pred_idx
      \<and> RISK_LABELS pred_idx = Some lbl
      \<and> reg_predict reg (X_input (features inp)) = Inr pred_log
      \<and> 2 < length probas
      \<longrightarrow> StMetric ''Estimated Damage'' (format_rupees (fmul (np_expm1 pred_log) 83))
            \<in> set (fst (predict_block np_expm1 clf reg inp)))
   \<and> (expm1_accurate np_expm1
      \<longrightarrow> format_rupees (pred_damage_inr np_expm1 (fl (92 / 10))) = rupee @ ''8.21 lakh''
        \<and> format_rupees (pred_damage_inr np_expm1 (92 / 10)) = rupee @ ''8.21 lakh'')"
proof -
  have e: "pred_damage_inr np_expm1 pred_log = fmul (np_expm1 pred_log) 83"
    by (simp add: pred_damage_inr_def pred_damage_usd_def convert_usd_to_inr_def USD_TO_INR_def)
  show ?thesis
    using predict_block_shows(1) [of clf inp probas pred_idx lbl reg pred_log np_expm1]
      damage_92 [of np_expm1]
    unfolding e by blast
qed

theorem damage_shown_witness:
  "expm1_accurate expm1_rounded
   \<and> StMetric ''Estimated Damage'' (rupee @ ''8.21 lakh'')
       \<in> set (fst (predict_block expm1_rounded
          \<lparr> predict_proba = (\<lambda>X. Inr [7 / 10, 2 / 10, 1 / 10]), predict = (\<lambda>X. Inr 0) \<rparr>
          \<lparr> reg_predict = (\<lambda>X. Inr (fl (92 / 10))) \<rparr>
          \<lparr> ui_value = default_value, ui_lat = 0, ui_lon = 0, ui_city_name = [],
            ui_predict_pressed = True \<rparr>))"
proof -
  define clf where "clf = \<lparr> predict_proba = (\<lambda>X. Inr [7 / 10, 2 / 10, 1 / 10 :: real]),
    predict = (\<lambda>X. Inr 0) \<rparr>"
  define reg where "reg = \<lparr> reg_predict = (\<lambda>X. Inr (fl (92 / 10))) \<rparr>"
  define inp where "inp = \<lparr> ui_value = default_value, ui_lat = 0, ui_lon = 0,
    ui_city_name = [], ui_predict_pressed = True \<rparr>"
  note t = damage_shown [of expm1_rounded "fl (92 / 10)" clf inp
      "[7 / 10, 2 / 10, 1 / 10]" 0 "''Low''" reg]
  have h: "predict_proba clf (X_input (features inp)) = Inr [7 / 10, 2 / 10, 1 / 10]
      \<and> predict clf (X_input (features inp)) = Inr 0
      \<and> RISK_LABELS 0 = Some ''Low''
      \<and> reg_predict reg (X_input (features inp)) = Inr (fl (92 / 10))
      \<and> 2 < length [7 / 10, 2 / 10, 1 / 10 :: real]"
    by (simp add: clf_def reg_def RISK_LABELS_def)
  have e: "pred_damage_inr expm1_rounded (fl (92 / 10)) = fmul (expm1_rounded (fl (92 / 10))) 83"
    using t by blast
  have m: "StMetric ''Estimated Damage'' (format_rupees (fmul (expm1_rounded (fl (92 / 10))) 83))
      \<in> set (fst (predict_block expm1_rounded clf reg inp))"
    using t h by blast
  have "format_rupees (pred_damage_inr expm1_rounded (fl (92 / 10))) = rupee @ ''8.21 lakh''"
    using t expm1_rounded_accurate by blast
  then have "format_rupees (fmul (expm1_rounded (fl (92 / 10))) 83) = rupee @ ''8.21 lakh''"
    by (simp only: e)
  with m have "StMetric ''Estimated Damage'' (rupee @ ''8.21 lakh'')
      \<in> set (fst (predict_block expm1_rounded clf reg inp))" by (simp only:)
  then show ?thesis using expm1_rounded_accurate unfolding clf_def reg_def inp_def by blast
qed

subsection \<open>The feature row\<close>










end
